theory Spec2Isabelle
  imports Main "HOL-Library.Word" "HOL-Library.Stream"
begin

unbundle bit_operations_syntax

section \<open>Protocol schema\<close>

text \<open>
  The constants of the package, pulled from \<^verbatim>\<open>include/uapi/linux/net_dropmon.h\<close>.
  Go's constants are untyped: the same \<^verbatim>\<open>ATTR_PC\<close> is a \<^verbatim>\<open>uint16\<close> attribute type
  when it is compared with \<^verbatim>\<open>dec.Type()\<close> and an \<^verbatim>\<open>int\<close> key of the attribute map.
  They are polymorphic numerals here for the same reason.
\<close>

type_synonym byte = "8 word"

definition CMD_UNSPEC :: "'a::semiring_1" where "CMD_UNSPEC = 0"
definition CMD_ALERT :: "'a::semiring_1" where "CMD_ALERT = 1"
definition CMD_CONFIG :: "'a::semiring_1" where "CMD_CONFIG = 2"
definition CMD_START :: "'a::semiring_1" where "CMD_START = 3"
definition CMD_STOP :: "'a::semiring_1" where "CMD_STOP = 4"
definition CMD_PACKET_ALERT :: "'a::semiring_1" where "CMD_PACKET_ALERT = 5"
definition CMD_CONFIG_GET :: "'a::semiring_1" where "CMD_CONFIG_GET = 6"
definition CMD_CONFIG_NEW :: "'a::semiring_1" where "CMD_CONFIG_NEW = 7"
definition CMD_STATS_GET :: "'a::semiring_1" where "CMD_STATS_GET = 8"
definition CMD_STATS_NEW :: "'a::semiring_1" where "CMD_STATS_NEW = 9"

definition ATTR_UNSPEC :: "'a::semiring_1" where "ATTR_UNSPEC = 0"
definition ATTR_ALERT_MODE :: "'a::semiring_1" where "ATTR_ALERT_MODE = 1"
definition ATTR_PC :: "'a::semiring_1" where "ATTR_PC = 2"
definition ATTR_SYMBOL :: "'a::semiring_1" where "ATTR_SYMBOL = 3"
definition ATTR_IN_PORT :: "'a::semiring_1" where "ATTR_IN_PORT = 4"
definition ATTR_TIMESTAMP :: "'a::semiring_1" where "ATTR_TIMESTAMP = 5"
definition ATTR_PROTO :: "'a::semiring_1" where "ATTR_PROTO = 6"
definition ATTR_PAYLOAD :: "'a::semiring_1" where "ATTR_PAYLOAD = 7"
definition ATTR_PAD :: "'a::semiring_1" where "ATTR_PAD = 8"
definition ATTR_TRUNC_LEN :: "'a::semiring_1" where "ATTR_TRUNC_LEN = 9"
definition ATTR_ORIG_LEN :: "'a::semiring_1" where "ATTR_ORIG_LEN = 10"
definition ATTR_QUEUE_LEN :: "'a::semiring_1" where "ATTR_QUEUE_LEN = 11"
definition ATTR_STATS :: "'a::semiring_1" where "ATTR_STATS = 12"
definition ATTR_HW_STATS :: "'a::semiring_1" where "ATTR_HW_STATS = 13"
definition ATTR_ORIGIN :: "'a::semiring_1" where "ATTR_ORIGIN = 14"
definition ATTR_HW_TRAP_GROUP_NAME :: "'a::semiring_1" where "ATTR_HW_TRAP_GROUP_NAME = 15"
definition ATTR_HW_TRAP_NAME :: "'a::semiring_1" where "ATTR_HW_TRAP_NAME = 16"
definition ATTR_HW_ENTRIES :: "'a::semiring_1" where "ATTR_HW_ENTRIES = 17"
definition ATTR_HW_ENTRY :: "'a::semiring_1" where "ATTR_HW_ENTRY = 18"
definition ATTR_HW_TRAP_COUNT :: "'a::semiring_1" where "ATTR_HW_TRAP_COUNT = 19"
definition ATTR_SW_DROPS :: "'a::semiring_1" where "ATTR_SW_DROPS = 20"
definition ATTR_HW_DROPS :: "'a::semiring_1" where "ATTR_HW_DROPS = 21"

definition GRP_ALERT :: "'a::semiring_1" where "GRP_ALERT = 1"
definition ALERT_MODE_SUMMARY :: "'a::semiring_1" where "ALERT_MODE_SUMMARY = 0"
definition ALERT_MODE_PACKET :: "'a::semiring_1" where "ALERT_MODE_PACKET = 1"
definition NATTR_PORT_NETDEV_IFINDEX :: "'a::semiring_1" where "NATTR_PORT_NETDEV_IFINDEX = 0"
definition NATTR_PORT_NETDEV_NAME :: "'a::semiring_1" where "NATTR_PORT_NETDEV_NAME = 1"

lemmas CMD_defs =
  CMD_UNSPEC_def CMD_ALERT_def CMD_CONFIG_def CMD_START_def CMD_STOP_def
  CMD_PACKET_ALERT_def CMD_CONFIG_GET_def CMD_CONFIG_NEW_def CMD_STATS_GET_def
  CMD_STATS_NEW_def

lemmas ATTR_defs =
  ATTR_UNSPEC_def ATTR_ALERT_MODE_def ATTR_PC_def ATTR_SYMBOL_def ATTR_IN_PORT_def
  ATTR_TIMESTAMP_def ATTR_PROTO_def ATTR_PAYLOAD_def ATTR_PAD_def ATTR_TRUNC_LEN_def
  ATTR_ORIG_LEN_def ATTR_QUEUE_LEN_def ATTR_STATS_def ATTR_HW_STATS_def ATTR_ORIGIN_def
  ATTR_HW_TRAP_GROUP_NAME_def ATTR_HW_TRAP_NAME_def ATTR_HW_ENTRIES_def ATTR_HW_ENTRY_def
  ATTR_HW_TRAP_COUNT_def ATTR_SW_DROPS_def ATTR_HW_DROPS_def
  NATTR_PORT_NETDEV_IFINDEX_def NATTR_PORT_NETDEV_NAME_def

section \<open>Errors and panics\<close>

text \<open>
  A Go \<^verbatim>\<open>error\<close> value. \<open>Errorf msg\<close> is an error made by \<^verbatim>\<open>fmt.Errorf\<close> or
  \<^verbatim>\<open>errors.New\<close> without a wrapped cause; \<open>NetError msg t\<close> is a value whose dynamic
  type implements \<^verbatim>\<open>net.Error\<close>, with \<open>t\<close> the answer of its \<^verbatim>\<open>Timeout()\<close> method;
  \<open>Wrapf p e\<close> is \<^verbatim>\<open>fmt.Errorf("p: %w", e)\<close>, whose dynamic type is never a
  \<^verbatim>\<open>net.Error\<close>.  A function that can panic returns \<open>'a go\<close>.
\<close>

datatype error = Errorf string | NetError string bool | Wrapf string error

datatype 'a go = Ret 'a | Panic string

section \<open>Attribute codec\<close>

text \<open>
  Modelled from the spec: the attribute codec (section 4.1) is the package
  \<^verbatim>\<open>github.com/mdlayher/netlink\<close>, which is imported by the repository and is not
  among its files.  The model follows the iterator the code drives: a record is a
  16-bit length (header included), a 16-bit type and the value, padded to a multiple of
  four bytes; integers are in the byte order of the host, taken little-endian here; the
  decoder keeps a soft error that stops the iteration and is read once, after the loop.
\<close>

record Attribute =
  attr_Length :: "16 word"
  attr_Type :: "16 word"
  attr_Data :: "byte list"

definition errInvalidAttribute :: error where
  "errInvalidAttribute = Errorf ''netlink: invalid attribute; length too short or too large''"

definition nlaHeaderLen :: nat where
  "nlaHeaderLen = 4"

definition nlaAlign :: "nat \<Rightarrow> nat" where
  "nlaAlign n = ((n + 3) div 4) * 4"

fun le_nat :: "byte list \<Rightarrow> nat" where
  "le_nat [] = 0"
| "le_nat (x # xs) = unat x + 256 * le_nat xs"

fun le_bytes :: "nat \<Rightarrow> nat \<Rightarrow> byte list" where
  "le_bytes 0 v = []"
| "le_bytes (Suc n) v = of_nat (v mod 256) # le_bytes n (v div 256)"

definition string_of_bytes :: "byte list \<Rightarrow> string" where
  "string_of_bytes bs = map (\<lambda>w. char_of (unat w)) bs"

text \<open>\<^verbatim>\<open>nlenc.String\<close>: the bytes as a string, without the trailing NULs.\<close>

definition nlenc_String :: "byte list \<Rightarrow> string" where
  "nlenc_String bs = string_of_bytes (rev (dropWhile (\<lambda>b. b = 0) (rev bs)))"

subsection \<open>Encoder\<close>

text \<open>
  \<^verbatim>\<open>AttributeEncoder\<close> collects attributes; \<^verbatim>\<open>Encode\<close> marshals them.  A flag is an
  attribute without value, present when the flag is true and left out when it is false.
  Marshalling fails when a record's length does not fit its 16-bit length field.
\<close>

type_synonym AttributeEncoder = "(16 word \<times> byte list) list"

definition NewAttributeEncoder :: AttributeEncoder where
  "NewAttributeEncoder = []"

definition enc_Uint8 :: "16 word \<Rightarrow> 8 word \<Rightarrow> AttributeEncoder \<Rightarrow> AttributeEncoder" where
  "enc_Uint8 typ v ae = ae @ [(typ, [v])]"

definition enc_Uint32 :: "16 word \<Rightarrow> 32 word \<Rightarrow> AttributeEncoder \<Rightarrow> AttributeEncoder" where
  "enc_Uint32 typ v ae = ae @ [(typ, le_bytes 4 (unat v))]"

definition enc_Uint64 :: "16 word \<Rightarrow> 64 word \<Rightarrow> AttributeEncoder \<Rightarrow> AttributeEncoder" where
  "enc_Uint64 typ v ae = ae @ [(typ, le_bytes 8 (unat v))]"

definition enc_Bytes :: "16 word \<Rightarrow> byte list \<Rightarrow> AttributeEncoder \<Rightarrow> AttributeEncoder" where
  "enc_Bytes typ bs ae = ae @ [(typ, bs)]"

definition enc_Flag :: "16 word \<Rightarrow> bool \<Rightarrow> AttributeEncoder \<Rightarrow> AttributeEncoder" where
  "enc_Flag typ v ae = (if v then ae @ [(typ, [])] else ae)"

definition marshal :: "16 word \<times> byte list \<Rightarrow> byte list" where
  "marshal a =
     le_bytes 2 (nlaHeaderLen + length (snd a)) @ le_bytes 2 (unat (fst a)) @ snd a
     @ replicate (nlaAlign (length (snd a)) - length (snd a)) 0"

fun MarshalAttributes :: "(16 word \<times> byte list) list \<Rightarrow> error + byte list" where
  "MarshalAttributes [] = Inr []"
| "MarshalAttributes (a # as) =
     (if nlaHeaderLen + length (snd a) > 65535 then Inl errInvalidAttribute
      else case MarshalAttributes as of
             Inl e \<Rightarrow> Inl e
           | Inr bs \<Rightarrow> Inr (marshal a @ bs))"

definition Encode :: "AttributeEncoder \<Rightarrow> error + byte list" where
  "Encode ae = MarshalAttributes ae"

subsection \<open>Decoder\<close>

text \<open>
  \<open>dec_rest\<close> is the input from the iterator's index on (\<^verbatim>\<open>b[i:]\<close>), \<open>dec_a\<close> the
  attribute \<^verbatim>\<open>Next\<close> last unpacked, \<open>dec_err\<close> the first error met.
\<close>

record AttributeDecoder =
  dec_rest :: "byte list"
  dec_a :: Attribute
  dec_err :: "error option"

definition unmarshal :: "byte list \<Rightarrow> error + Attribute" where
  "unmarshal bs =
     (if length bs < nlaHeaderLen then Inl errInvalidAttribute
      else let l = le_nat (take 2 bs); t = le_nat (take 2 (drop 2 bs)) in
        if l > length bs then Inl errInvalidAttribute
        else if l = 0 then Inr \<lparr>attr_Length = 0, attr_Type = of_nat t, attr_Data = []\<rparr>
        else if l < nlaHeaderLen then Inl errInvalidAttribute
        else Inr \<lparr>attr_Length = of_nat l, attr_Type = of_nat t,
                  attr_Data = take (l - nlaHeaderLen) (drop nlaHeaderLen bs)\<rparr>)"

text \<open>How far a record of declared length \<open>l\<close> moves the index: at least one header.\<close>

definition advance :: "nat \<Rightarrow> nat" where
  "advance l = (if l < nlaHeaderLen then nlaHeaderLen else nlaAlign l)"

text \<open>
  \<^verbatim>\<open>available\<close>, the scan \<^verbatim>\<open>NewAttributeDecoder\<close> makes over the record headers to
  count them: it fails where fewer than four bytes are left for a header.
\<close>

function available :: "byte list \<Rightarrow> error + nat" where
  "available bs =
     (if bs = [] then Inr 0
      else if length bs < nlaHeaderLen then Inl errInvalidAttribute
      else case available (drop (advance (le_nat (take 2 bs))) bs) of
             Inl e \<Rightarrow> Inl e
           | Inr n \<Rightarrow> Inr (Suc n))"
  by pat_completeness auto
termination
  by (relation "measure length") (auto simp: advance_def nlaHeaderLen_def nlaAlign_def)

declare available.simps [simp del]

definition NewAttributeDecoder :: "byte list \<Rightarrow> error + AttributeDecoder" where
  "NewAttributeDecoder b =
     (case available b of
        Inl e \<Rightarrow> Inl e
      | Inr n \<Rightarrow> Inr \<lparr>dec_rest = b,
                     dec_a = \<lparr>attr_Length = 0, attr_Type = 0, attr_Data = []\<rparr>,
                     dec_err = None\<rparr>)"

definition Next :: "AttributeDecoder \<Rightarrow> bool \<times> AttributeDecoder" where
  "Next ad =
     (if dec_err ad \<noteq> None then (False, ad)
      else if dec_rest ad = [] then (False, ad)
      else case unmarshal (dec_rest ad) of
             Inl e \<Rightarrow> (False, ad\<lparr>dec_err := Some e\<rparr>)
           | Inr a \<Rightarrow>
               (True, ad\<lparr>dec_a := a,
                         dec_rest := drop (advance (unat (attr_Length a))) (dec_rest ad)\<rparr>))"

text \<open>\<^verbatim>\<open>Type\<close> masks the nested and byte-order flags off the attribute type.\<close>

definition Type :: "AttributeDecoder \<Rightarrow> 16 word" where
  "Type ad = attr_Type (dec_a ad) AND 0x3FFF"

definition Err :: "AttributeDecoder \<Rightarrow> error option" where
  "Err ad = dec_err ad"

definition errNotUint :: error where
  "errNotUint = Errorf ''netlink: attribute is not an unsigned integer of the width asked for''"

definition uint_of :: "nat \<Rightarrow> AttributeDecoder \<Rightarrow> nat \<times> AttributeDecoder" where
  "uint_of w ad =
     (if dec_err ad \<noteq> None then (0, ad)
      else if length (attr_Data (dec_a ad)) \<noteq> w
        then (0, ad\<lparr>dec_err := Some errNotUint\<rparr>)
      else (le_nat (attr_Data (dec_a ad)), ad))"

definition Uint8 :: "AttributeDecoder \<Rightarrow> 8 word \<times> AttributeDecoder" where
  "Uint8 ad = (case uint_of 1 ad of (n, ad') \<Rightarrow> (of_nat n, ad'))"

definition Uint16 :: "AttributeDecoder \<Rightarrow> 16 word \<times> AttributeDecoder" where
  "Uint16 ad = (case uint_of 2 ad of (n, ad') \<Rightarrow> (of_nat n, ad'))"

definition Uint32 :: "AttributeDecoder \<Rightarrow> 32 word \<times> AttributeDecoder" where
  "Uint32 ad = (case uint_of 4 ad of (n, ad') \<Rightarrow> (of_nat n, ad'))"

definition Uint64 :: "AttributeDecoder \<Rightarrow> 64 word \<times> AttributeDecoder" where
  "Uint64 ad = (case uint_of 8 ad of (n, ad') \<Rightarrow> (of_nat n, ad'))"

definition String :: "AttributeDecoder \<Rightarrow> string \<times> AttributeDecoder" where
  "String ad =
     (if dec_err ad \<noteq> None then ([], ad) else (nlenc_String (attr_Data (dec_a ad)), ad))"

definition Bytes :: "AttributeDecoder \<Rightarrow> byte list \<times> AttributeDecoder" where
  "Bytes ad = (if dec_err ad \<noteq> None then ([], ad) else (attr_Data (dec_a ad), ad))"

text \<open>
  \<^verbatim>\<open>Nested(fn)\<close> runs \<open>fn\<close> on a decoder for the value of the current attribute.  The
  closure the code passes writes to a variable it captured; \<open>st\<close> is that variable, and
  what \<open>fn\<close> left in it is kept whether \<open>fn\<close> or the nested decoder ends in an error or
  not.  The error becomes the outer decoder's.
\<close>

definition Nested ::
  "(AttributeDecoder \<Rightarrow> 's \<Rightarrow> error option \<times> AttributeDecoder \<times> 's) \<Rightarrow> 's
     \<Rightarrow> AttributeDecoder \<Rightarrow> AttributeDecoder \<times> 's" where
  "Nested fn st ad =
     (if dec_err ad \<noteq> None then (ad, st)
      else case NewAttributeDecoder (attr_Data (dec_a ad)) of
             Inl e \<Rightarrow> (ad\<lparr>dec_err := Some e\<rparr>, st)
           | Inr nad \<Rightarrow>
               (case fn nad st of
                  (Some e, nad', st') \<Rightarrow> (ad\<lparr>dec_err := Some e\<rparr>, st')
                | (None, nad', st') \<Rightarrow> (ad\<lparr>dec_err := Err nad'\<rparr>, st')))"

text \<open>Only \<^verbatim>\<open>Next\<close> moves the index, and forward: the loops over a decoder terminate.\<close>

lemma Next_rest:
  "(True, d') = Next d \<Longrightarrow> length (dec_rest d') < length (dec_rest d)"
  by (auto simp: Next_def advance_def nlaHeaderLen_def nlaAlign_def
      split: if_splits sum.splits)

lemma uint_of_rest [simp]: "dec_rest (snd (uint_of w d)) = dec_rest d"
  by (simp add: uint_of_def)

lemma Uint8_rest [simp]: "dec_rest (snd (Uint8 d)) = dec_rest d"
  by (simp add: Uint8_def case_prod_beta)

lemma Uint16_rest [simp]: "dec_rest (snd (Uint16 d)) = dec_rest d"
  by (simp add: Uint16_def case_prod_beta)

lemma Uint32_rest [simp]: "dec_rest (snd (Uint32 d)) = dec_rest d"
  by (simp add: Uint32_def case_prod_beta)

lemma Uint64_rest [simp]: "dec_rest (snd (Uint64 d)) = dec_rest d"
  by (simp add: Uint64_def case_prod_beta)

lemma String_rest [simp]: "dec_rest (snd (String d)) = dec_rest d"
  by (simp add: String_def)

lemma Bytes_rest [simp]: "dec_rest (snd (Bytes d)) = dec_rest d"
  by (simp add: Bytes_def)

lemma Nested_rest [simp]: "dec_rest (fst (Nested fn st d)) = dec_rest d"
  by (simp add: Nested_def split: sum.splits prod.splits option.splits)

section \<open>Decoding alerts and configuration\<close>

text \<open>
  The code keeps decoded attributes in a \<^verbatim>\<open>map[int]interface{}\<close>.  \<open>iface\<close> is the
  \<^verbatim>\<open>interface{}\<close> with the dynamic types the package stores; a type assertion on it
  panics when the dynamic type is another one.  \<open>IFunc\<close> is a method value, which only
  the \<^verbatim>\<open>decodeAlert\<close> of the file \<^verbatim>\<open>netlink.go\<close> stores.
\<close>

datatype iface =
    IUint8 "8 word"
  | IUint16 "16 word"
  | IUint32 "32 word"
  | IUint64 "64 word"
  | IString string
  | IBytes "byte list"
  | IMap "int \<Rightarrow> iface option"
  | IFunc

type_synonym attrs = "int \<Rightarrow> iface option"

text \<open>The body of the closure \<^verbatim>\<open>decodeAlert\<close> passes to \<^verbatim>\<open>dec.Nested\<close>.\<close>

definition decodePort_case :: "AttributeDecoder \<Rightarrow> attrs \<Rightarrow> AttributeDecoder \<times> attrs" where
  "decodePort_case d a =
     (if Type d = NATTR_PORT_NETDEV_IFINDEX
        then (case Uint32 d of (v, d') \<Rightarrow> (d', a(NATTR_PORT_NETDEV_IFINDEX \<mapsto> IUint32 v)))
      else if Type d = NATTR_PORT_NETDEV_NAME
        then (case String d of (v, d') \<Rightarrow> (d', a(NATTR_PORT_NETDEV_NAME \<mapsto> IString v)))
      else (d, a))"

lemma decodePort_case_rest [simp]:
  "dec_rest (fst (decodePort_case d a)) = dec_rest d"
  by (simp add: decodePort_case_def case_prod_beta)

function decodePort_loop :: "AttributeDecoder \<Rightarrow> attrs \<Rightarrow> AttributeDecoder \<times> attrs" where
  "decodePort_loop d a =
     (case Next d of
        (False, d') \<Rightarrow> (d', a)
      | (True, d') \<Rightarrow> (case decodePort_case d' a of (d'', a') \<Rightarrow> decodePort_loop d'' a'))"
  by pat_completeness auto
termination
  apply (relation "measure (\<lambda>(d, a). length (dec_rest d))")
   apply simp
  apply (auto simp: case_prod_beta dest!: Next_rest)
  done

declare decodePort_loop.simps [simp del]

definition decodePort ::
  "AttributeDecoder \<Rightarrow> attrs \<Rightarrow> error option \<times> AttributeDecoder \<times> attrs" where
  "decodePort d a = (case decodePort_loop d a of (d', a') \<Rightarrow> (None, d', a'))"

text \<open>The \<^verbatim>\<open>switch dec.Type()\<close> of \<^verbatim>\<open>decodeAlert\<close>, one attribute.\<close>

definition decodeAlert_case :: "AttributeDecoder \<Rightarrow> attrs \<Rightarrow> AttributeDecoder \<times> attrs" where
  "decodeAlert_case dec ret =
     (if Type dec = ATTR_PC
        then (case Uint64 dec of (v, dec') \<Rightarrow> (dec', ret(ATTR_PC \<mapsto> IUint64 v)))
      else if Type dec = ATTR_SYMBOL
        then (case String dec of (v, dec') \<Rightarrow> (dec', ret(ATTR_SYMBOL \<mapsto> IString v)))
      else if Type dec = ATTR_IN_PORT
        then (case Nested decodePort Map.empty dec of
                (dec', a) \<Rightarrow> (dec', ret(ATTR_IN_PORT \<mapsto> IMap a)))
      else if Type dec = ATTR_TIMESTAMP
        then (case Uint64 dec of (v, dec') \<Rightarrow> (dec', ret(ATTR_TIMESTAMP \<mapsto> IUint64 v)))
      else if Type dec = ATTR_PROTO
        then (case Uint16 dec of (v, dec') \<Rightarrow> (dec', ret(ATTR_PROTO \<mapsto> IUint16 v)))
      else if Type dec = ATTR_PAYLOAD
        then (case Bytes dec of (v, dec') \<Rightarrow> (dec', ret(ATTR_PAYLOAD \<mapsto> IBytes v)))
      else if Type dec = ATTR_ORIG_LEN
        then (case Uint32 dec of (v, dec') \<Rightarrow> (dec', ret(ATTR_ORIG_LEN \<mapsto> IUint32 v)))
      else if Type dec = ATTR_ORIGIN
        then (case Uint16 dec of (v, dec') \<Rightarrow> (dec', ret(ATTR_ORIGIN \<mapsto> IUint16 v)))
      else (dec, ret))"

lemma decodeAlert_case_rest [simp]:
  "dec_rest (fst (decodeAlert_case d a)) = dec_rest d"
  by (simp add: decodeAlert_case_def case_prod_beta)

function decodeAlert_loop :: "AttributeDecoder \<Rightarrow> attrs \<Rightarrow> AttributeDecoder \<times> attrs" where
  "decodeAlert_loop dec ret =
     (case Next dec of
        (False, dec') \<Rightarrow> (dec', ret)
      | (True, dec') \<Rightarrow>
          (case decodeAlert_case dec' ret of (dec'', ret') \<Rightarrow> decodeAlert_loop dec'' ret'))"
  by pat_completeness auto
termination
  apply (relation "measure (\<lambda>(d, a). length (dec_rest d))")
   apply simp
  apply (auto simp: case_prod_beta dest!: Next_rest)
  done

declare decodeAlert_loop.simps [simp del]

definition decodeAlert :: "byte list \<Rightarrow> error + attrs" where
  "decodeAlert raw =
     (case NewAttributeDecoder raw of
        Inl e \<Rightarrow> Inl (Wrapf ''decode'' e)
      | Inr dec \<Rightarrow>
          (case decodeAlert_loop dec Map.empty of
             (dec', ret) \<Rightarrow> (case Err dec' of Some e \<Rightarrow> Inl e | None \<Rightarrow> Inr ret)))"

text \<open>
  The file \<^verbatim>\<open>netlink.go\<close> holds another \<^verbatim>\<open>decodeAlert\<close>, named
  \<open>decodeAlert_netlink_go\<close> here.  Its loop is the same but for the timestamp, where
  it stores the method \<^verbatim>\<open>dec.Uint64\<close> without calling it; it prints \<^verbatim>\<open>dec.Err()\<close> to
  the log in every round, which is not modelled, and after the loop it returns the
  attributes and \<^verbatim>\<open>nil\<close> without reading \<^verbatim>\<open>dec.Err()\<close>.
\<close>

definition decodeAlert_netlink_go_case ::
  "AttributeDecoder \<Rightarrow> attrs \<Rightarrow> AttributeDecoder \<times> attrs" where
  "decodeAlert_netlink_go_case dec ret =
     (if Type dec = ATTR_PC
        then (case Uint64 dec of (v, dec') \<Rightarrow> (dec', ret(ATTR_PC \<mapsto> IUint64 v)))
      else if Type dec = ATTR_SYMBOL
        then (case String dec of (v, dec') \<Rightarrow> (dec', ret(ATTR_SYMBOL \<mapsto> IString v)))
      else if Type dec = ATTR_IN_PORT
        then (case Nested decodePort Map.empty dec of
                (dec', a) \<Rightarrow> (dec', ret(ATTR_IN_PORT \<mapsto> IMap a)))
      else if Type dec = ATTR_TIMESTAMP
        then (dec, ret(ATTR_TIMESTAMP \<mapsto> IFunc))
      else if Type dec = ATTR_PROTO
        then (case Uint16 dec of (v, dec') \<Rightarrow> (dec', ret(ATTR_PROTO \<mapsto> IUint16 v)))
      else if Type dec = ATTR_PAYLOAD
        then (case Bytes dec of (v, dec') \<Rightarrow> (dec', ret(ATTR_PAYLOAD \<mapsto> IBytes v)))
      else if Type dec = ATTR_ORIG_LEN
        then (case Uint32 dec of (v, dec') \<Rightarrow> (dec', ret(ATTR_ORIG_LEN \<mapsto> IUint32 v)))
      else if Type dec = ATTR_ORIGIN
        then (case Uint16 dec of (v, dec') \<Rightarrow> (dec', ret(ATTR_ORIGIN \<mapsto> IUint16 v)))
      else (dec, ret))"

lemma decodeAlert_netlink_go_case_rest [simp]:
  "dec_rest (fst (decodeAlert_netlink_go_case d a)) = dec_rest d"
  by (simp add: decodeAlert_netlink_go_case_def case_prod_beta)

function decodeAlert_netlink_go_loop ::
  "AttributeDecoder \<Rightarrow> attrs \<Rightarrow> AttributeDecoder \<times> attrs" where
  "decodeAlert_netlink_go_loop dec ret =
     (case Next dec of
        (False, dec') \<Rightarrow> (dec', ret)
      | (True, dec') \<Rightarrow>
          (case decodeAlert_netlink_go_case dec' ret of
             (dec'', ret') \<Rightarrow> decodeAlert_netlink_go_loop dec'' ret'))"
  by pat_completeness auto
termination
  apply (relation "measure (\<lambda>(d, a). length (dec_rest d))")
   apply simp
  apply (auto simp: case_prod_beta dest!: Next_rest)
  done

declare decodeAlert_netlink_go_loop.simps [simp del]

definition decodeAlert_netlink_go :: "byte list \<Rightarrow> error + attrs" where
  "decodeAlert_netlink_go raw =
     (case NewAttributeDecoder raw of
        Inl e \<Rightarrow> Inl (Wrapf ''decode'' e)
      | Inr dec \<Rightarrow>
          (case decodeAlert_netlink_go_loop dec Map.empty of (dec', ret) \<Rightarrow> Inr ret))"

definition decodeConfig_case :: "AttributeDecoder \<Rightarrow> attrs \<Rightarrow> AttributeDecoder \<times> attrs" where
  "decodeConfig_case dec ret =
     (if Type dec = ATTR_ALERT_MODE
        then (case Uint8 dec of (v, dec') \<Rightarrow> (dec', ret(ATTR_ALERT_MODE \<mapsto> IUint8 v)))
      else if Type dec = ATTR_TRUNC_LEN
        then (case Uint32 dec of (v, dec') \<Rightarrow> (dec', ret(ATTR_TRUNC_LEN \<mapsto> IUint32 v)))
      else if Type dec = ATTR_QUEUE_LEN
        then (case Uint32 dec of (v, dec') \<Rightarrow> (dec', ret(ATTR_QUEUE_LEN \<mapsto> IUint32 v)))
      else (dec, ret))"

lemma decodeConfig_case_rest [simp]:
  "dec_rest (fst (decodeConfig_case d a)) = dec_rest d"
  by (simp add: decodeConfig_case_def case_prod_beta)

function decodeConfig_loop :: "AttributeDecoder \<Rightarrow> attrs \<Rightarrow> AttributeDecoder \<times> attrs" where
  "decodeConfig_loop dec ret =
     (case Next dec of
        (False, dec') \<Rightarrow> (dec', ret)
      | (True, dec') \<Rightarrow>
          (case decodeConfig_case dec' ret of (dec'', ret') \<Rightarrow> decodeConfig_loop dec'' ret'))"
  by pat_completeness auto
termination
  apply (relation "measure (\<lambda>(d, a). length (dec_rest d))")
   apply simp
  apply (auto simp: case_prod_beta dest!: Next_rest)
  done

declare decodeConfig_loop.simps [simp del]

definition decodeConfig :: "byte list \<Rightarrow> error + attrs" where
  "decodeConfig raw =
     (case NewAttributeDecoder raw of
        Inl e \<Rightarrow> Inl (Wrapf ''decode'' e)
      | Inr dec \<Rightarrow>
          (case decodeConfig_loop dec Map.empty of
             (dec', ret) \<Rightarrow> (case Err dec' of Some e \<Rightarrow> Inl e | None \<Rightarrow> Inr ret)))"

section \<open>PacketAlert\<close>

record PacketAlert =
  attrs :: attrs

definition PacketAlertFromRaw :: "byte list \<Rightarrow> error + PacketAlert" where
  "PacketAlertFromRaw raw =
     (case decodeAlert raw of
        Inl e \<Rightarrow> Inl (Wrapf ''decode'' e)
      | Inr a \<Rightarrow> Inr \<lparr>attrs = a\<rparr>)"

definition conversion_panic :: "'a go" where
  "conversion_panic = Panic ''interface conversion: interface {} has another dynamic type''"

definition Packet :: "PacketAlert \<Rightarrow> byte list go" where
  "Packet pa =
     (case attrs pa ATTR_PAYLOAD of
        None \<Rightarrow> Ret []
      | Some (IBytes payload) \<Rightarrow> Ret payload
      | Some _ \<Rightarrow> conversion_panic)"

definition L3Packet :: "PacketAlert \<Rightarrow> byte list go" where
  "L3Packet pa =
     (case Packet pa of
        Panic m \<Rightarrow> Panic m
      | Ret packet \<Rightarrow> if length packet \<le> 14 then Ret [] else Ret (drop 14 packet))"

definition Symbol :: "PacketAlert \<Rightarrow> string go" where
  "Symbol pa =
     (case attrs pa ATTR_SYMBOL of
        None \<Rightarrow> Ret []
      | Some (IString symb) \<Rightarrow> Ret symb
      | Some _ \<Rightarrow> conversion_panic)"

definition PC :: "PacketAlert \<Rightarrow> 64 word go" where
  "PC pa =
     (case attrs pa ATTR_PC of
        None \<Rightarrow> Ret 0
      | Some (IUint64 pc) \<Rightarrow> Ret pc
      | Some _ \<Rightarrow> conversion_panic)"

definition Proto :: "PacketAlert \<Rightarrow> 16 word go" where
  "Proto pa =
     (case attrs pa ATTR_PROTO of
        None \<Rightarrow> Ret 0
      | Some (IUint16 proto) \<Rightarrow> Ret proto
      | Some _ \<Rightarrow> conversion_panic)"

definition Is4 :: "PacketAlert \<Rightarrow> bool go" where
  "Is4 pa = (case Proto pa of Panic m \<Rightarrow> Panic m | Ret proto \<Rightarrow> Ret (proto = 0x0800))"

definition Is16 :: "PacketAlert \<Rightarrow> bool go" where
  "Is16 pa = (case Proto pa of Panic m \<Rightarrow> Panic m | Ret proto \<Rightarrow> Ret (proto = 0x86DD))"

definition Length :: "PacketAlert \<Rightarrow> 32 word go" where
  "Length pa =
     (case attrs pa ATTR_ORIG_LEN of
        None \<Rightarrow> Ret 0
      | Some (IUint32 l) \<Rightarrow> Ret l
      | Some _ \<Rightarrow> conversion_panic)"

definition Link :: "PacketAlert \<Rightarrow> 32 word go" where
  "Link pa =
     (case attrs pa ATTR_IN_PORT of
        None \<Rightarrow> Ret 0
      | Some (IMap a) \<Rightarrow>
          (case a 0 of
             None \<Rightarrow> Ret 0
           | Some (IUint32 lidx) \<Rightarrow> Ret lidx
           | Some _ \<Rightarrow> conversion_panic)
      | Some _ \<Rightarrow> conversion_panic)"

section \<open>Transport\<close>

text \<open>
  The connection is a \<^verbatim>\<open>*genetlink.Conn\<close> of \<^verbatim>\<open>github.com/mdlayher/genetlink\<close>; the
  package is imported, and what the kernel and the socket answer is not in the code.  A
  \<open>Conn\<close> therefore carries the answers it will give: for each kind of call the
  stream of the outcomes of the calls to come, in order, and the family registry.  Every
  call takes the head of its stream and appends the call, with its outcome, to \<open>trace\<close>,
  the history of calls made on the connection.  A statement about every \<open>Conn\<close> is
  a statement about every behaviour of the transport.
\<close>

record genl_Header =
  Command :: "8 word"
  Version :: "8 word"

record genl_Message =
  Header :: genl_Header
  Data :: "byte list"

record MulticastGroup =
  group_ID :: "32 word"
  group_Name :: string

record Family =
  family_ID :: "16 word"
  family_Version :: "8 word"
  family_Name :: string
  Groups :: "MulticastGroup list"

text \<open>A \<^verbatim>\<open>time.Time\<close>, in nanoseconds since the zero time: \<^verbatim>\<open>IsZero\<close> is \<open>t = 0\<close>.\<close>

type_synonym Time = int

datatype event =
    EvSend genl_Message "16 word" "16 word" "error option"
  | EvReceive "error + genl_Message list"
  | EvJoinGroup "32 word" "error option"
  | EvLeaveGroup "32 word" "error option"
  | EvSetReadBuffer int
  | EvSetReadDeadline Time
  | EvGetFamily string

record Conn =
  sends :: "error option stream"
  receives :: "(error + genl_Message list) stream"
  joins :: "error option stream"
  leaves :: "error option stream"
  families :: "string \<Rightarrow> error + Family"
  trace :: "event list"

text \<open>\<^verbatim>\<open>netlink.Request\<close> and \<^verbatim>\<open>netlink.Acknowledge\<close>, header flags.\<close>

definition Request :: "16 word" where
  "Request = 1"

definition Acknowledge :: "16 word" where
  "Acknowledge = 4"

definition conn_Send :: "genl_Message \<Rightarrow> 16 word \<Rightarrow> 16 word \<Rightarrow> Conn \<Rightarrow> error option \<times> Conn" where
  "conn_Send m family flags c =
     (shd (sends c),
      c\<lparr>sends := stl (sends c),
        trace := trace c @ [EvSend m family flags (shd (sends c))]\<rparr>)"

definition conn_Receive :: "Conn \<Rightarrow> (error + genl_Message list) \<times> Conn" where
  "conn_Receive c =
     (shd (receives c),
      c\<lparr>receives := stl (receives c), trace := trace c @ [EvReceive (shd (receives c))]\<rparr>)"

definition conn_JoinGroup :: "32 word \<Rightarrow> Conn \<Rightarrow> error option \<times> Conn" where
  "conn_JoinGroup g c =
     (shd (joins c),
      c\<lparr>joins := stl (joins c), trace := trace c @ [EvJoinGroup g (shd (joins c))]\<rparr>)"

definition conn_LeaveGroup :: "32 word \<Rightarrow> Conn \<Rightarrow> error option \<times> Conn" where
  "conn_LeaveGroup g c =
     (shd (leaves c),
      c\<lparr>leaves := stl (leaves c), trace := trace c @ [EvLeaveGroup g (shd (leaves c))]\<rparr>)"

definition conn_GetFamily :: "string \<Rightarrow> Conn \<Rightarrow> (error + Family) \<times> Conn" where
  "conn_GetFamily name c = (families c name, c\<lparr>trace := trace c @ [EvGetFamily name]\<rparr>)"

definition conn_SetReadBuffer :: "int \<Rightarrow> Conn \<Rightarrow> Conn" where
  "conn_SetReadBuffer n c = c\<lparr>trace := trace c @ [EvSetReadBuffer n]\<rparr>"

definition conn_SetReadDeadline :: "Time \<Rightarrow> Conn \<Rightarrow> Conn" where
  "conn_SetReadDeadline t c = c\<lparr>trace := trace c @ [EvSetReadDeadline t]\<rparr>"

section \<open>Session\<close>

text \<open>
  The methods of \<^verbatim>\<open>*Session\<close> change the connection behind the pointer: each takes the
  session and returns it with what it returns.
\<close>

record Session =
  conn :: Conn
  fam :: "16 word"
  group :: "32 word"

definition dropMonitorLookup :: "Session \<Rightarrow> (error + 16 word \<times> 32 word) \<times> Session" where
  "dropMonitorLookup s =
     (case conn_GetFamily ''NET_DM'' (conn s) of
        (Inl e, c') \<Rightarrow> (Inl (Wrapf ''lookup'' e), s\<lparr>conn := c'\<rparr>)
      | (Inr f, c') \<Rightarrow>
          if length (Groups f) \<noteq> 1
            then (Inl (Errorf ''lookup: martian NET_DM family''), s\<lparr>conn := c'\<rparr>)
          else (Inr (family_ID f, group_ID (Groups f ! 0)), s\<lparr>conn := c'\<rparr>))"

text \<open>\<open>dial\<close> is what \<^verbatim>\<open>genetlink.Dial(nil)\<close> returns.\<close>

definition NewSession :: "error + Conn \<Rightarrow> error + Session" where
  "NewSession dial =
     (case dial of
        Inl e \<Rightarrow> Inl (Wrapf ''session'' e)
      | Inr c \<Rightarrow>
          (case dropMonitorLookup \<lparr>conn = c, fam = 0, group = 0\<rparr> of
             (Inl e, s) \<Rightarrow> Inl (Wrapf ''session'' e)
           | (Inr (f, g), s) \<Rightarrow> Inr (s\<lparr>fam := f, group := g\<rparr>)))"

definition req :: "8 word \<Rightarrow> byte list \<Rightarrow> bool \<Rightarrow> Session \<Rightarrow> error option \<times> Session" where
  "req cmd data ack s =
     (let flags = (if ack then Request OR Acknowledge else Request) in
      case conn_Send \<lparr>Header = \<lparr>Command = cmd, Version = 0\<rparr>, Data = data\<rparr> (fam s) flags
             (conn s) of
        (err, c') \<Rightarrow> (err, s\<lparr>conn := c'\<rparr>))"

definition Config :: "Session \<Rightarrow> (error + attrs) go \<times> Session" where
  "Config s =
     (case req CMD_CONFIG_GET [] False s of
        (Some e, s1) \<Rightarrow> (Ret (Inl (Wrapf ''config'' e)), s1)
      | (None, s1) \<Rightarrow>
          (case conn_Receive (conn s1) of
             (Inl e, c2) \<Rightarrow> (Ret (Inl (Wrapf ''config'' e)), s1\<lparr>conn := c2\<rparr>)
           | (Inr ms, c2) \<Rightarrow>
               (case ms of
                  [] \<Rightarrow> (Panic ''index out of range [0] with length 0'', s1\<lparr>conn := c2\<rparr>)
                | m # _ \<Rightarrow>
                    (case decodeConfig (Data m) of
                       Inl e \<Rightarrow> (Ret (Inl (Wrapf ''config'' e)), s1\<lparr>conn := c2\<rparr>)
                     | Inr conf \<Rightarrow> (Ret (Inr conf), s1\<lparr>conn := c2\<rparr>)))))"

definition Stop :: "bool \<Rightarrow> bool \<Rightarrow> Session \<Rightarrow> error option \<times> Session" where
  "Stop sw hw s =
     (case conn_LeaveGroup GRP_ALERT (conn s) of
        (_, c1) \<Rightarrow>
          (case Encode (enc_Flag ATTR_HW_DROPS hw (enc_Flag ATTR_SW_DROPS sw NewAttributeEncoder)) of
             Inl e \<Rightarrow> (Some (Wrapf ''encode'' e), s\<lparr>conn := c1\<rparr>)
           | Inr raw \<Rightarrow>
               (case req CMD_STOP raw False (s\<lparr>conn := c1\<rparr>) of
                  (Some e, s2) \<Rightarrow> (Some (Wrapf ''req'' e), s2)
                | (None, s2) \<Rightarrow> (None, s2))))"

definition setPacketMode :: "Session \<Rightarrow> error option \<times> Session" where
  "setPacketMode s =
     (case Encode (enc_Uint32 ATTR_QUEUE_LEN 4096
                    (enc_Uint32 ATTR_TRUNC_LEN 100
                      (enc_Uint8 ATTR_ALERT_MODE ALERT_MODE_PACKET NewAttributeEncoder))) of
        Inl e \<Rightarrow> (Some (Wrapf ''encode'' e), s)
      | Inr raw \<Rightarrow>
          (case req CMD_CONFIG raw True s of
             (Some e, s1) \<Rightarrow> (Some (Wrapf ''req'' e), s1)
           | (None, s1) \<Rightarrow>
               (case conn_Receive (conn s1) of
                  (Inl e, c2) \<Rightarrow> (Some (Wrapf ''req ack'' e), s1\<lparr>conn := c2\<rparr>)
                | (Inr _, c2) \<Rightarrow> (None, s1\<lparr>conn := c2\<rparr>))))"

definition Start :: "bool \<Rightarrow> bool \<Rightarrow> Session \<Rightarrow> error option \<times> Session" where
  "Start sw hw s =
     (case Encode (enc_Flag ATTR_HW_DROPS hw (enc_Flag ATTR_SW_DROPS sw NewAttributeEncoder)) of
        Inl e \<Rightarrow> (Some (Wrapf ''encode'' e), s)
      | Inr raw \<Rightarrow>
          (case setPacketMode s of
             (Some e, s1) \<Rightarrow> (Some (Wrapf ''packet mode'' e), s1)
           | (None, s1) \<Rightarrow>
               (case req CMD_START raw True s1 of
                  (Some e, s2) \<Rightarrow> (Some (Wrapf ''req'' e), s2)
                | (None, s2) \<Rightarrow>
                    (case conn_Receive (conn s2) of
                       (Inl e, c3) \<Rightarrow>
                         (Some (Wrapf ''req ack'' e), snd (Stop sw hw (s2\<lparr>conn := c3\<rparr>)))
                     | (Inr _, c3) \<Rightarrow>
                         (case conn_JoinGroup GRP_ALERT c3 of
                            (Some e, c4) \<Rightarrow>
                              (Some (Wrapf ''join'' e), snd (Stop sw hw (s2\<lparr>conn := c4\<rparr>)))
                          | (None, c4) \<Rightarrow> (None, s2\<lparr>conn := c4\<rparr>))))))"

subsection \<open>The read loop\<close>

text \<open>
  \<^verbatim>\<open>err.(net.Error)\<close> followed by \<^verbatim>\<open>nerr.Timeout()\<close>, on the error as \<^verbatim>\<open>Receive\<close>
  returned it.
\<close>

fun is_timeout :: "error \<Rightarrow> bool" where
  "is_timeout (NetError msg t) = t"
| "is_timeout (Errorf msg) = False"
| "is_timeout (Wrapf p e) = False"

text \<open>
  The callback is a Go closure: it may keep state of its own between calls (the
  command counts the drops it has printed).  \<open>'u\<close> is that state; the callback takes it
  and returns it with its answer.

  \<open>range_ms\<close> is the inner loop \<^verbatim>\<open>for _, m := range ms\<close>: it either runs through
  the batch (\<open>Fallthrough\<close>) or returns from \<^verbatim>\<open>ReadUntil\<close> (\<open>Returned\<close>).
\<close>

datatype loop_exit = Fallthrough | Returned "error option"

fun range_ms ::
  "('u \<Rightarrow> PacketAlert \<Rightarrow> bool \<times> 'u) \<Rightarrow> 'u \<Rightarrow> genl_Message list \<Rightarrow> loop_exit \<times> 'u" where
  "range_ms f u [] = (Fallthrough, u)"
| "range_ms f u (m # ms) =
     (if Command (Header m) \<noteq> CMD_PACKET_ALERT then range_ms f u ms
      else case PacketAlertFromRaw (Data m) of
             Inl e \<Rightarrow> (Returned (Some (Wrapf ''parse alert packet'' e)), u)
           | Inr pa \<Rightarrow>
               (case f u pa of
                  (False, u') \<Rightarrow> (Returned None, u')
                | (True, u') \<Rightarrow> range_ms f u' ms))"

text \<open>
  The outer \<^verbatim>\<open>for\<close> has no exit of its own and may run forever.  \<open>ReadUntil_loop n\<close>
  runs at most \<open>n\<close> rounds of it, one \<^verbatim>\<open>Receive\<close> each, and is \<open>None\<close> when the
  loop has not returned by then.
\<close>

fun ReadUntil_loop ::
  "nat \<Rightarrow> Time \<Rightarrow> ('u \<Rightarrow> PacketAlert \<Rightarrow> bool \<times> 'u) \<Rightarrow> 'u \<Rightarrow> Session
     \<Rightarrow> (error option \<times> 'u \<times> Session) option" where
  "ReadUntil_loop 0 deadline f u s = None"
| "ReadUntil_loop (Suc n) deadline f u s =
     (let s1 = (if deadline \<noteq> 0 then s\<lparr>conn := conn_SetReadDeadline deadline (conn s)\<rparr>
                else s) in
      case conn_Receive (conn s1) of
        (Inl e, c2) \<Rightarrow>
          if is_timeout e then Some (None, u, s1\<lparr>conn := c2\<rparr>)
          else Some (Some (Wrapf ''recv'' e), u, s1\<lparr>conn := c2\<rparr>)
      | (Inr ms, c2) \<Rightarrow>
          (case range_ms f u ms of
             (Returned r, u') \<Rightarrow> Some (r, u', s1\<lparr>conn := c2\<rparr>)
           | (Fallthrough, u') \<Rightarrow> ReadUntil_loop n deadline f u' (s1\<lparr>conn := c2\<rparr>)))"

definition ReadUntil ::
  "nat \<Rightarrow> Time \<Rightarrow> ('u \<Rightarrow> PacketAlert \<Rightarrow> bool \<times> 'u) \<Rightarrow> 'u \<Rightarrow> Session
     \<Rightarrow> (error option \<times> 'u \<times> Session) option" where
  "ReadUntil n deadline f u s =
     ReadUntil_loop n deadline f u (s\<lparr>conn := conn_SetReadBuffer 4096 (conn s)\<rparr>)"

section \<open>Vocabulary of the statements\<close>

text \<open>
  Names for what the theorems below talk about; none of them is code of the package.
  \<open>request cmd data\<close> is the message \<^verbatim>\<open>req\<close> builds.  \<open>flags_payload\<close> and
  \<open>packet_mode_payload\<close> are the bytes the encoder yields for the start and stop flags
  and for the configuration \<^verbatim>\<open>setPacketMode\<close> sends (alert mode 1, truncation length
  100, queue length 4096), as \<open>Encode_flags\<close> and \<open>Encode_packet_mode\<close> show.
\<close>

definition request :: "8 word \<Rightarrow> byte list \<Rightarrow> genl_Message" where
  "request cmd data = \<lparr>Header = \<lparr>Command = cmd, Version = 0\<rparr>, Data = data\<rparr>"

definition flags_payload :: "bool \<Rightarrow> bool \<Rightarrow> byte list" where
  "flags_payload sw hw = (if sw then [4, 0, 20, 0] else []) @ (if hw then [4, 0, 21, 0] else [])"

definition packet_mode_payload :: "byte list" where
  "packet_mode_payload =
     [5, 0, 1, 0, 1, 0, 0, 0,  8, 0, 9, 0, 100, 0, 0, 0,  8, 0, 11, 0, 0, 16, 0, 0]"








text \<open>
  For the decoder: \<open>malformed_records bs\<close> says that, walking the stream \<open>bs\<close> record
  by record, a record is met whose header is cut short, or whose declared length is more
  than the bytes that are left, or is 1, 2 or 3.  \<open>malformed bs\<close> says the same of an
  alert, where the value of an \<^verbatim>\<open>ATTR_IN_PORT\<close> record is a stream of records of its
  own.
\<close>

function malformed_records :: "byte list \<Rightarrow> bool" where
  "malformed_records bs =
     (if bs = [] then False
      else if length bs < nlaHeaderLen then True
      else if le_nat (take 2 bs) > length bs then True
      else if 0 < le_nat (take 2 bs) \<and> le_nat (take 2 bs) < nlaHeaderLen then True
      else malformed_records (drop (advance (le_nat (take 2 bs))) bs))"
  by pat_completeness auto
termination
  by (relation "measure length") (auto simp: advance_def nlaHeaderLen_def nlaAlign_def)

declare malformed_records.simps [simp del]

function malformed :: "byte list \<Rightarrow> bool" where
  "malformed bs =
     (if bs = [] then False
      else if length bs < nlaHeaderLen then True
      else if le_nat (take 2 bs) > length bs then True
      else if 0 < le_nat (take 2 bs) \<and> le_nat (take 2 bs) < nlaHeaderLen then True
      else if (of_nat (le_nat (take 2 (drop 2 bs))) :: 16 word) AND 0x3FFF = ATTR_IN_PORT
           \<and> malformed_records (take (le_nat (take 2 bs) - nlaHeaderLen) (drop nlaHeaderLen bs))
        then True
      else malformed (drop (advance (le_nat (take 2 bs))) bs))"
  by pat_completeness auto
termination
  by (relation "measure length") (auto simp: advance_def nlaHeaderLen_def nlaAlign_def)

declare malformed.simps [simp del]

text \<open>
  Modelled from the spec: the monitoring state of a session (sections 3 and 4.3).  The
  \<^verbatim>\<open>Session\<close> struct has the fields \<^verbatim>\<open>conn\<close>, \<^verbatim>\<open>fam\<close> and \<^verbatim>\<open>group\<close> and stores
  no state; what the spec calls Monitoring, ``multicast group joined, kernel alerting
  enabled'', lives in the socket and in the kernel.  \<open>observed\<close> reads both off the
  history of the calls: the group is joined from a join that succeeded to a leave that
  succeeded; alerting is enabled when the acknowledgment of a \<^verbatim>\<open>CMD_START\<close> that was
  sent has been received, and disabled when a \<^verbatim>\<open>CMD_STOP\<close> has been sent.  \<open>Idle\<close> is
  neither, \<open>Monitoring\<close> is both.
\<close>

record monitor =
  awaiting_ack :: bool
  alerting :: bool
  joined :: bool

fun observe :: "monitor \<Rightarrow> event \<Rightarrow> monitor" where
  "observe g (EvSend m family flags res) =
     (if res \<noteq> None then g
      else if Command (Header m) = CMD_START then g\<lparr>awaiting_ack := True\<rparr>
      else if Command (Header m) = CMD_STOP then g\<lparr>awaiting_ack := False, alerting := False\<rparr>
      else g\<lparr>awaiting_ack := False\<rparr>)"
| "observe g (EvReceive r) =
     (case r of
        Inl e \<Rightarrow> g\<lparr>awaiting_ack := False\<rparr>
      | Inr ms \<Rightarrow> g\<lparr>awaiting_ack := False, alerting := (alerting g \<or> awaiting_ack g)\<rparr>)"
| "observe g (EvJoinGroup grp res) =
     (if res = None \<and> grp = GRP_ALERT then g\<lparr>joined := True\<rparr> else g)"
| "observe g (EvLeaveGroup grp res) =
     (if res = None \<and> grp = GRP_ALERT then g\<lparr>joined := False\<rparr> else g)"
| "observe g (EvSetReadBuffer n) = g"
| "observe g (EvSetReadDeadline t) = g"
| "observe g (EvGetFamily name) = g"

definition observed :: "event list \<Rightarrow> monitor" where
  "observed tr = foldl observe \<lparr>awaiting_ack = False, alerting = False, joined = False\<rparr> tr"

definition Idle :: "Session \<Rightarrow> bool" where
  "Idle s = (observed (trace (conn s)) = \<lparr>awaiting_ack = False, alerting = False, joined = False\<rparr>)"

definition Monitoring :: "Session \<Rightarrow> bool" where
  "Monitoring s = (observed (trace (conn s)) = \<lparr>awaiting_ack = False, alerting = True, joined = True\<rparr>)"

text \<open>
  The dynamic types of the values \<^verbatim>\<open>decodeAlert\<close> stores: the type each accessor of
  \<^verbatim>\<open>PacketAlert\<close> asserts of the attribute it reads.
\<close>

fun is_uint16 :: "iface \<Rightarrow> bool" where
  "is_uint16 (IUint16 x) = True"
| "is_uint16 v = False"

fun is_uint32 :: "iface \<Rightarrow> bool" where
  "is_uint32 (IUint32 x) = True"
| "is_uint32 v = False"

fun is_uint64 :: "iface \<Rightarrow> bool" where
  "is_uint64 (IUint64 x) = True"
| "is_uint64 v = False"

fun is_string :: "iface \<Rightarrow> bool" where
  "is_string (IString x) = True"
| "is_string v = False"

fun is_bytes :: "iface \<Rightarrow> bool" where
  "is_bytes (IBytes x) = True"
| "is_bytes v = False"

definition absent_or :: "(iface \<Rightarrow> bool) \<Rightarrow> iface option \<Rightarrow> bool" where
  "absent_or P v = (case v of None \<Rightarrow> True | Some x \<Rightarrow> P x)"

definition port_typed :: "attrs \<Rightarrow> bool" where
  "port_typed a =
     (absent_or is_uint32 (a NATTR_PORT_NETDEV_IFINDEX)
      \<and> absent_or is_string (a NATTR_PORT_NETDEV_NAME))"

fun is_port :: "iface \<Rightarrow> bool" where
  "is_port (IMap a) = port_typed a"
| "is_port v = False"

definition alert_typed :: "attrs \<Rightarrow> bool" where
  "alert_typed ret =
     (absent_or is_uint64 (ret ATTR_PC)
      \<and> absent_or is_string (ret ATTR_SYMBOL)
      \<and> absent_or is_port (ret ATTR_IN_PORT)
      \<and> absent_or is_uint64 (ret ATTR_TIMESTAMP)
      \<and> absent_or is_uint16 (ret ATTR_PROTO)
      \<and> absent_or is_bytes (ret ATTR_PAYLOAD)
      \<and> absent_or is_uint32 (ret ATTR_ORIG_LEN)
      \<and> absent_or is_uint16 (ret ATTR_ORIGIN))"

section \<open>Example connections\<close>

text \<open>
  Concrete sessions, messages and a callback on which the theorems are instantiated:
  \<open>example_session\<close> is a session on a connection with the given outcomes of its sends,
  receives, joins and leaves; \<open>count_to_two\<close> is the callback of the command with
  \<^verbatim>\<open>-count 2\<close>, which answers false at the second alert.
\<close>

definition no_family :: "string \<Rightarrow> error + Family" where
  "no_family name = Inl (Errorf ''no such family'')"

definition example_session ::
  "error option stream \<Rightarrow> (error + genl_Message list) stream \<Rightarrow> error option stream
     \<Rightarrow> error option stream \<Rightarrow> Session" where
  "example_session snds rcvs jns lvs =
     \<lparr>conn = \<lparr>sends = snds, receives = rcvs, joins = jns, leaves = lvs,
              families = no_family, trace = []\<rparr>,
      fam = 0x1f, group = 1\<rparr>"

definition example_family :: Family where
  "example_family =
     \<lparr>family_ID = 0x1f, family_Version = 2, family_Name = ''NET_DM'',
      Groups = [\<lparr>group_ID = 1, group_Name = ''events''\<rparr>]\<rparr>"

definition example_conn :: "(string \<Rightarrow> error + Family) \<Rightarrow> Conn" where
  "example_conn reg =
     \<lparr>sends = sconst None, receives = sconst (Inr []), joins = sconst None,
      leaves = sconst None, families = reg, trace = []\<rparr>"






definition rollback_fails :: Session where
  "rollback_fails =
     example_session (None ## None ## Some (Errorf ''EPIPE'') ## sconst None)
       (Inr [] ## Inr [] ## sconst (Inr [])) (Some (Errorf ''ENOENT'') ## sconst None)
       (None ## sconst None)"

text \<open>A session whose socket has been closed: every call on it answers \<^verbatim>\<open>EBADF\<close>.\<close>

definition closed_socket :: Session where
  "closed_socket =
     example_session (Some (Errorf ''EBADF'') ## Some (Errorf ''EBADF'') ## sconst None)
       (sconst (Inl (Errorf ''EBADF''))) (sconst (Some (Errorf ''EBADF'')))
       (Some (Errorf ''EBADF'') ## Some (Errorf ''EBADF'') ## sconst None)"

definition rollback_sent :: Session where
  "rollback_sent =
     example_session (None ## None ## None ## None ## None ## None ## sconst None)
       (Inr [] ## Inr [] ## Inr [] ## Inr [] ## sconst (Inr []))
       (Some (Errorf ''ENOENT'') ## None ## sconst None)
       (Some (Errorf ''EINVAL'') ## None ## sconst None)"

section \<open>The requests of the session\<close>

lemma le_bytes_2: "le_bytes 2 v = [of_nat (v mod 256), of_nat (v div 256 mod 256)]"
  by (simp add: numeral_2_eq_2)

lemma le_bytes_4:
  "le_bytes 4 v = [of_nat (v mod 256), of_nat (v div 256 mod 256),
                   of_nat (v div 256 div 256 mod 256), of_nat (v div 256 div 256 div 256 mod 256)]"
proof -
  have e: "(4::nat) = Suc (Suc (Suc (Suc 0)))" by simp
  show ?thesis by (simp only: e le_bytes.simps)
qed

lemma le_bytes_8:
  "le_bytes 8 v = le_bytes 4 v @ le_bytes 4 (v div 256 div 256 div 256 div 256)"
proof -
  have e: "(8::nat) = Suc (Suc (Suc (Suc (Suc (Suc (Suc (Suc 0)))))))" by simp
  show ?thesis by (simp only: e le_bytes.simps le_bytes_4 append.simps)
qed

lemma Encode_flags:
  "Encode (enc_Flag ATTR_HW_DROPS hw (enc_Flag ATTR_SW_DROPS sw NewAttributeEncoder))
     = Inr (flags_payload sw hw)"
  by (simp add: Encode_def enc_Flag_def NewAttributeEncoder_def flags_payload_def marshal_def
      nlaHeaderLen_def nlaAlign_def ATTR_defs le_bytes_2)

lemma replicate_3 [simp]: "replicate 3 x = [x, x, x]"
  by (simp add: numeral_3_eq_3)

lemma Encode_packet_mode:
  "Encode (enc_Uint32 ATTR_QUEUE_LEN 4096
            (enc_Uint32 ATTR_TRUNC_LEN 100
              (enc_Uint8 ATTR_ALERT_MODE ALERT_MODE_PACKET NewAttributeEncoder)))
     = Inr packet_mode_payload"
  by (simp add: Encode_def enc_Uint32_def enc_Uint8_def NewAttributeEncoder_def
      packet_mode_payload_def marshal_def nlaHeaderLen_def nlaAlign_def ATTR_defs
      ALERT_MODE_PACKET_def le_bytes_2 le_bytes_4)

lemma decodeConfig_packet_mode:
  "decodeConfig packet_mode_payload =
     Inr [ATTR_ALERT_MODE \<mapsto> IUint8 ALERT_MODE_PACKET, ATTR_TRUNC_LEN \<mapsto> IUint32 100,
          ATTR_QUEUE_LEN \<mapsto> IUint32 4096]"
  by (simp add: packet_mode_payload_def decodeConfig_def NewAttributeDecoder_def Next_def Err_def
      unmarshal_def advance_def nlaAlign_def nlaHeaderLen_def decodeConfig_case_def Type_def
      ATTR_defs ALERT_MODE_PACKET_def Uint8_def Uint32_def uint_of_def available.simps
      decodeConfig_loop.simps)

lemma req_eq:
  "req cmd data ack s =
     (shd (sends (conn s)),
      s\<lparr>conn := (conn s)\<lparr>sends := stl (sends (conn s)),
          trace := trace (conn s) @
            [EvSend (request cmd data) (fam s) (if ack then Request OR Acknowledge else Request)
               (shd (sends (conn s)))]\<rparr>\<rparr>)"
  by (simp add: req_def conn_Send_def request_def Let_def)

lemma Stop_eq:
  "Stop sw hw s =
     (case shd (sends (conn s)) of None \<Rightarrow> None | Some e \<Rightarrow> Some (Wrapf ''req'' e),
      s\<lparr>conn := (conn s)\<lparr>leaves := stl (leaves (conn s)), sends := stl (sends (conn s)),
          trace := trace (conn s) @
            [EvLeaveGroup GRP_ALERT (shd (leaves (conn s))),
             EvSend (request CMD_STOP (flags_payload sw hw)) (fam s) Request
               (shd (sends (conn s)))]\<rparr>\<rparr>)"
  by (simp add: Stop_def conn_LeaveGroup_def Encode_flags req_eq split: option.splits)

lemma setPacketMode_eq:
  "setPacketMode s =
     (case shd (sends (conn s)) of
        Some e \<Rightarrow>
          (Some (Wrapf ''req'' e),
           s\<lparr>conn := (conn s)\<lparr>sends := stl (sends (conn s)),
              trace := trace (conn s) @
                [EvSend (request CMD_CONFIG packet_mode_payload) (fam s)
                   (Request OR Acknowledge) (Some e)]\<rparr>\<rparr>)
      | None \<Rightarrow>
          (case shd (receives (conn s)) of Inl e \<Rightarrow> Some (Wrapf ''req ack'' e) | Inr _ \<Rightarrow> None,
           s\<lparr>conn := (conn s)\<lparr>sends := stl (sends (conn s)),
              receives := stl (receives (conn s)),
              trace := trace (conn s) @
                [EvSend (request CMD_CONFIG packet_mode_payload) (fam s)
                   (Request OR Acknowledge) None,
                 EvReceive (shd (receives (conn s)))]\<rparr>\<rparr>))"
  by (simp add: setPacketMode_def Encode_packet_mode req_eq conn_Receive_def
      split: option.splits sum.splits)

text \<open>
  C1: for all \<open>sw\<close> and \<open>hw\<close>, \<^verbatim>\<open>Start\<close> sends the acknowledged configuration
  request (alert mode 1, truncation length 100, queue length 4096) and receives its
  acknowledgment, sends the acknowledged \<^verbatim>\<open>CMD_START\<close> with the flags and receives its
  acknowledgment, and joins the alert group, in this order.  When the configuration step
  fails, \<^verbatim>\<open>Start\<close> returns that error and makes no further call.  When the start
  acknowledgment or the join fails, \<^verbatim>\<open>Stop\<close> follows (the leave and the
  \<^verbatim>\<open>CMD_STOP\<close>), and whatever the leave \<open>l\<close> and the stop \<open>o3\<close> answer, the error
  returned is the one of the acknowledgment or of the join.  The outcomes of the calls
  are named by the first equations: every connection has this form.
\<close>

theorem Start_sequence:
  assumes "sends (conn s) = o1 ## o2 ## o3 ## ss"
    and "receives (conn s) = r1 ## r2 ## rs"
    and "joins (conn s) = j ## js"
    and "leaves (conn s) = l ## ls"
  shows
    "Encode (enc_Uint32 ATTR_QUEUE_LEN 4096
              (enc_Uint32 ATTR_TRUNC_LEN 100
                (enc_Uint8 ATTR_ALERT_MODE ALERT_MODE_PACKET NewAttributeEncoder)))
       = Inr packet_mode_payload
     \<and> decodeConfig packet_mode_payload =
         Inr [ATTR_ALERT_MODE \<mapsto> IUint8 ALERT_MODE_PACKET, ATTR_TRUNC_LEN \<mapsto> IUint32 100,
              ATTR_QUEUE_LEN \<mapsto> IUint32 4096]
     \<and> Encode (enc_Flag ATTR_HW_DROPS hw (enc_Flag ATTR_SW_DROPS sw NewAttributeEncoder))
         = Inr (flags_payload sw hw)
     \<and> (Request OR Acknowledge) AND Acknowledge = Acknowledge
     \<and> Request AND Acknowledge = 0
     \<and> (let config = EvSend (request CMD_CONFIG packet_mode_payload) (fam s)
                    (Request OR Acknowledge) o1;
         start = EvSend (request CMD_START (flags_payload sw hw)) (fam s)
                    (Request OR Acknowledge) o2;
         stop = EvSend (request CMD_STOP (flags_payload sw hw)) (fam s) Request o3;
         join = EvJoinGroup GRP_ALERT j;
         leave = EvLeaveGroup GRP_ALERT l;
         err = fst (Start sw hw s);
         calls = trace (conn (snd (Start sw hw s)))
     in (o1 = None \<and> r1 = Inr m1 \<and> o2 = None \<and> r2 = Inr m2 \<and> j = None \<longrightarrow>
           err = None
           \<and> calls = trace (conn s) @ [config, EvReceive r1, start, EvReceive r2, join])
      \<and> (o1 = Some e \<longrightarrow>
           err = Some (Wrapf ''packet mode'' (Wrapf ''req'' e))
           \<and> calls = trace (conn s) @ [config])
      \<and> (o1 = None \<and> r1 = Inl e \<longrightarrow>
           err = Some (Wrapf ''packet mode'' (Wrapf ''req ack'' e))
           \<and> calls = trace (conn s) @ [config, EvReceive r1])
      \<and> (o1 = None \<and> r1 = Inr m1 \<and> o2 = Some e \<longrightarrow>
           err = Some (Wrapf ''req'' e)
           \<and> calls = trace (conn s) @ [config, EvReceive r1, start])
      \<and> (o1 = None \<and> r1 = Inr m1 \<and> o2 = None \<and> r2 = Inl e \<longrightarrow>
           err = Some (Wrapf ''req ack'' e)
           \<and> calls = trace (conn s) @ [config, EvReceive r1, start, EvReceive r2, leave, stop])
      \<and> (o1 = None \<and> r1 = Inr m1 \<and> o2 = None \<and> r2 = Inr m2 \<and> j = Some e \<longrightarrow>
           err = Some (Wrapf ''join'' e)
           \<and> calls = trace (conn s) @
                 [config, EvReceive r1, start, EvReceive r2, join, leave, stop]))"
proof -
  have flags: "(Request OR Acknowledge) AND Acknowledge = Acknowledge"
    "Request AND Acknowledge = 0"
    by (simp_all add: Request_def Acknowledge_def)
  show ?thesis
    using assms flags
    by (simp add: Let_def Start_def Encode_flags Encode_packet_mode decodeConfig_packet_mode
        setPacketMode_eq req_eq Stop_eq conn_Receive_def conn_JoinGroup_def)
qed

theorem Start_sequence_witness:
  "fst (Start True False
         (example_session (None ## None ## None ## sconst None)
            (Inr [] ## Inr [] ## sconst (Inr [])) (None ## sconst None) (None ## sconst None)))
     = None
   \<and> trace (conn (snd (Start True False
         (example_session (None ## None ## None ## sconst None)
            (Inr [] ## Inr [] ## sconst (Inr [])) (None ## sconst None) (None ## sconst None)))))
     = [EvSend (request CMD_CONFIG packet_mode_payload) 0x1f (Request OR Acknowledge) None,
        EvReceive (Inr []),
        EvSend (request CMD_START [4, 0, 20, 0]) 0x1f (Request OR Acknowledge) None,
        EvReceive (Inr []),
        EvJoinGroup GRP_ALERT None]
   \<and> fst (Start True False
         (example_session (Some (Errorf ''EPERM'') ## None ## None ## sconst None)
            (Inr [] ## Inr [] ## sconst (Inr [])) (None ## sconst None) (None ## sconst None)))
     = Some (Wrapf ''packet mode'' (Wrapf ''req'' (Errorf ''EPERM'')))
   \<and> fst (Start True False
         (example_session (None ## None ## None ## sconst None)
            (Inl (Errorf ''EPERM'') ## Inr [] ## sconst (Inr [])) (None ## sconst None)
            (None ## sconst None)))
     = Some (Wrapf ''packet mode'' (Wrapf ''req ack'' (Errorf ''EPERM'')))
   \<and> fst (Start True False
         (example_session (None ## Some (Errorf ''EPIPE'') ## None ## sconst None)
            (Inr [] ## Inr [] ## sconst (Inr [])) (None ## sconst None) (None ## sconst None)))
     = Some (Wrapf ''req'' (Errorf ''EPIPE''))
   \<and> fst (Start True False
         (example_session (None ## None ## Some (Errorf ''EPIPE'') ## sconst None)
            (Inr [] ## Inl (Errorf ''EBUSY'') ## sconst (Inr [])) (None ## sconst None)
            (Some (Errorf ''EINVAL'') ## sconst None)))
     = Some (Wrapf ''req ack'' (Errorf ''EBUSY''))
   \<and> fst (Start True False
         (example_session (None ## None ## Some (Errorf ''EPIPE'') ## sconst None)
            (Inr [] ## Inr [] ## sconst (Inr [])) (Some (Errorf ''ENOENT'') ## sconst None)
            (Some (Errorf ''EINVAL'') ## sconst None)))
     = Some (Wrapf ''join'' (Errorf ''ENOENT''))
   \<and> trace (conn (snd (Start True False
         (example_session (None ## None ## Some (Errorf ''EPIPE'') ## sconst None)
            (Inr [] ## Inr [] ## sconst (Inr [])) (Some (Errorf ''ENOENT'') ## sconst None)
            (Some (Errorf ''EINVAL'') ## sconst None)))))
     = [EvSend (request CMD_CONFIG packet_mode_payload) 0x1f (Request OR Acknowledge) None,
        EvReceive (Inr []),
        EvSend (request CMD_START [4, 0, 20, 0]) 0x1f (Request OR Acknowledge) None,
        EvReceive (Inr []),
        EvJoinGroup GRP_ALERT (Some (Errorf ''ENOENT'')),
        EvLeaveGroup GRP_ALERT (Some (Errorf ''EINVAL'')),
        EvSend (request CMD_STOP [4, 0, 20, 0]) 0x1f Request (Some (Errorf ''EPIPE''))]"
  using
    Start_sequence [where s = "example_session (None ## None ## None ## sconst None)
            (Inr [] ## Inr [] ## sconst (Inr [])) (None ## sconst None) (None ## sconst None)"
        and ?o1.0 = "None" and ?o2.0 = "None" and ?o3.0 = "None" and ss = "sconst None"
        and ?r1.0 = "Inr []" and ?r2.0 = "Inr []" and rs = "sconst (Inr [])"
        and j = "None" and js = "sconst None" and l = "None" and ls = "sconst None"
        and sw = True and hw = False and ?m1.0 = "[]" and ?m2.0 = "[]" and e = "Errorf []"]
    Start_sequence [where s = "example_session (Some (Errorf ''EPERM'') ## None ## None ## sconst None)
            (Inr [] ## Inr [] ## sconst (Inr [])) (None ## sconst None) (None ## sconst None)"
        and ?o1.0 = "Some (Errorf ''EPERM'')" and ?o2.0 = "None" and ?o3.0 = "None" and ss = "sconst None"
        and ?r1.0 = "Inr []" and ?r2.0 = "Inr []" and rs = "sconst (Inr [])"
        and j = "None" and js = "sconst None" and l = "None" and ls = "sconst None"
        and sw = True and hw = False and ?m1.0 = "[]" and ?m2.0 = "[]" and e = "Errorf ''EPERM''"]
    Start_sequence [where s = "example_session (None ## None ## None ## sconst None)
            (Inl (Errorf ''EPERM'') ## Inr [] ## sconst (Inr [])) (None ## sconst None) (None ## sconst None)"
        and ?o1.0 = "None" and ?o2.0 = "None" and ?o3.0 = "None" and ss = "sconst None"
        and ?r1.0 = "Inl (Errorf ''EPERM'')" and ?r2.0 = "Inr []" and rs = "sconst (Inr [])"
        and j = "None" and js = "sconst None" and l = "None" and ls = "sconst None"
        and sw = True and hw = False and ?m1.0 = "[]" and ?m2.0 = "[]" and e = "Errorf ''EPERM''"]
    Start_sequence [where s = "example_session (None ## Some (Errorf ''EPIPE'') ## None ## sconst None)
            (Inr [] ## Inr [] ## sconst (Inr [])) (None ## sconst None) (None ## sconst None)"
        and ?o1.0 = "None" and ?o2.0 = "Some (Errorf ''EPIPE'')" and ?o3.0 = "None" and ss = "sconst None"
        and ?r1.0 = "Inr []" and ?r2.0 = "Inr []" and rs = "sconst (Inr [])"
        and j = "None" and js = "sconst None" and l = "None" and ls = "sconst None"
        and sw = True and hw = False and ?m1.0 = "[]" and ?m2.0 = "[]" and e = "Errorf ''EPIPE''"]
    Start_sequence [where s = "example_session (None ## None ## Some (Errorf ''EPIPE'') ## sconst None)
            (Inr [] ## Inl (Errorf ''EBUSY'') ## sconst (Inr [])) (None ## sconst None) (Some (Errorf ''EINVAL'') ## sconst None)"
        and ?o1.0 = "None" and ?o2.0 = "None" and ?o3.0 = "Some (Errorf ''EPIPE'')" and ss = "sconst None"
        and ?r1.0 = "Inr []" and ?r2.0 = "Inl (Errorf ''EBUSY'')" and rs = "sconst (Inr [])"
        and j = "None" and js = "sconst None" and l = "Some (Errorf ''EINVAL'')" and ls = "sconst None"
        and sw = True and hw = False and ?m1.0 = "[]" and ?m2.0 = "[]" and e = "Errorf ''EBUSY''"]
    Start_sequence [where s = "example_session (None ## None ## Some (Errorf ''EPIPE'') ## sconst None)
            (Inr [] ## Inr [] ## sconst (Inr [])) (Some (Errorf ''ENOENT'') ## sconst None) (Some (Errorf ''EINVAL'') ## sconst None)"
        and ?o1.0 = "None" and ?o2.0 = "None" and ?o3.0 = "Some (Errorf ''EPIPE'')" and ss = "sconst None"
        and ?r1.0 = "Inr []" and ?r2.0 = "Inr []" and rs = "sconst (Inr [])"
        and j = "Some (Errorf ''ENOENT'')" and js = "sconst None" and l = "Some (Errorf ''EINVAL'')" and ls = "sconst None"
        and sw = True and hw = False and ?m1.0 = "[]" and ?m2.0 = "[]" and e = "Errorf ''ENOENT''"]
  by (simp add: example_session_def Let_def flags_payload_def)

text \<open>
  C3: for all \<open>sw\<close> and \<open>hw\<close>, \<^verbatim>\<open>Stop\<close> first leaves the alert group and then,
  whatever the leave answered (\<open>l1\<close>), sends \<^verbatim>\<open>CMD_STOP\<close> with the flags and without
  the acknowledge flag; it makes no \<^verbatim>\<open>Receive\<close> call.  It returns an error exactly
  when that send fails (\<open>o1\<close>, \<open>o2\<close>), so two calls in a row whose sends the transport
  accepts both return no error, whatever the leaves answer.
\<close>

theorem Stop_leaves_then_sends:
  assumes "sends (conn s) = o1 ## o2 ## ss" and "leaves (conn s) = l1 ## l2 ## ls"
  shows
    "Encode (enc_Flag ATTR_HW_DROPS hw (enc_Flag ATTR_SW_DROPS sw NewAttributeEncoder))
       = Inr (flags_payload sw hw)
     \<and> trace (conn (snd (Stop sw hw s))) =
        trace (conn s) @
          [EvLeaveGroup GRP_ALERT l1,
           EvSend (request CMD_STOP (flags_payload sw hw)) (fam s) Request o1]
     \<and> Request AND Acknowledge = 0
     \<and> receives (conn (snd (Stop sw hw s))) = receives (conn s)
     \<and> fst (Stop sw hw s) = (case o1 of None \<Rightarrow> None | Some e \<Rightarrow> Some (Wrapf ''req'' e))
     \<and> trace (conn (snd (Stop sw hw (snd (Stop sw hw s))))) =
        trace (conn s) @
          [EvLeaveGroup GRP_ALERT l1,
           EvSend (request CMD_STOP (flags_payload sw hw)) (fam s) Request o1,
           EvLeaveGroup GRP_ALERT l2,
           EvSend (request CMD_STOP (flags_payload sw hw)) (fam s) Request o2]
     \<and> fst (Stop sw hw (snd (Stop sw hw s)))
         = (case o2 of None \<Rightarrow> None | Some e \<Rightarrow> Some (Wrapf ''req'' e))
     \<and> (o1 = None \<and> o2 = None \<longrightarrow>
          fst (Stop sw hw s) = None \<and> fst (Stop sw hw (snd (Stop sw hw s))) = None)"
  using assms
  by (simp add: Stop_eq Encode_flags Request_def Acknowledge_def)

theorem Stop_leaves_then_sends_witness:
  "fst (Stop True True
         (example_session (None ## None ## sconst None) (sconst (Inr []))
            (sconst None) (Some (Errorf ''ENOENT'') ## Some (Errorf ''ENOENT'') ## sconst None)))
     = None
   \<and> fst (Stop True True (snd (Stop True True
         (example_session (None ## None ## sconst None) (sconst (Inr []))
            (sconst None) (Some (Errorf ''ENOENT'') ## Some (Errorf ''ENOENT'') ## sconst None)))))
     = None
   \<and> trace (conn (snd (Stop True True
         (example_session (None ## None ## sconst None) (sconst (Inr []))
            (sconst None) (Some (Errorf ''ENOENT'') ## Some (Errorf ''ENOENT'') ## sconst None)))))
     = [EvLeaveGroup GRP_ALERT (Some (Errorf ''ENOENT'')),
        EvSend (request CMD_STOP [4, 0, 20, 0, 4, 0, 21, 0]) 0x1f Request None]"
  using
    Stop_leaves_then_sends [where s = "example_session (None ## None ## sconst None) (sconst (Inr []))
            (sconst None) (Some (Errorf ''ENOENT'') ## Some (Errorf ''ENOENT'') ## sconst None)"
        and ?o1.0 = None and ?o2.0 = None and ss = "sconst None"
        and ?l1.0 = "Some (Errorf ''ENOENT'')" and ?l2.0 = "Some (Errorf ''ENOENT'')"
        and ls = "sconst None" and sw = True and hw = True]
  by (simp add: example_session_def flags_payload_def)

text \<open>
  The claim C3 as stated fails where the transport refuses the request: on a closed
  socket the leave fails and is ignored, the \<^verbatim>\<open>CMD_STOP\<close> is still attempted, and its
  send error is what both calls of \<^verbatim>\<open>Stop\<close> return.
\<close>

theorem Stop_send_error_counterexample:
  "fst (Stop True True closed_socket) = Some (Wrapf ''req'' (Errorf ''EBADF''))
   \<and> fst (Stop True True (snd (Stop True True closed_socket)))
       = Some (Wrapf ''req'' (Errorf ''EBADF''))
   \<and> trace (conn (snd (Stop True True (snd (Stop True True closed_socket)))))
       = [EvLeaveGroup GRP_ALERT (Some (Errorf ''EBADF'')),
          EvSend (request CMD_STOP [4, 0, 20, 0, 4, 0, 21, 0]) 0x1f Request
            (Some (Errorf ''EBADF'')),
          EvLeaveGroup GRP_ALERT (Some (Errorf ''EBADF'')),
          EvSend (request CMD_STOP [4, 0, 20, 0, 4, 0, 21, 0]) 0x1f Request
            (Some (Errorf ''EBADF''))]"
  by (simp add: closed_socket_def example_session_def Stop_eq flags_payload_def)

section \<open>Discovery and the identifiers of the session\<close>

lemma Start_frame: "fam (snd (Start sw hw s)) = fam s \<and> group (snd (Start sw hw s)) = group s"
  by (simp add: Start_def Encode_flags setPacketMode_eq req_eq Stop_eq conn_Receive_def
      conn_JoinGroup_def split: option.split sum.split)

lemma Config_frame: "fam (snd (Config s)) = fam s \<and> group (snd (Config s)) = group s"
  by (simp add: Config_def req_eq conn_Receive_def split: option.split sum.split list.split)

lemma ReadUntil_loop_frame:
  "ReadUntil_loop n deadline f u s = Some (r, u', s') \<Longrightarrow> fam s' = fam s \<and> group s' = group s"
proof (induction n arbitrary: u s)
  case 0
  then show ?case by simp
next
  case (Suc n)
  let ?s1 = "if deadline \<noteq> 0 then s\<lparr>conn := conn_SetReadDeadline deadline (conn s)\<rparr> else s"
  let ?s2 = "?s1\<lparr>conn := snd (conn_Receive (conn ?s1))\<rparr>"
  have s2: "fam ?s2 = fam s \<and> group ?s2 = group s"
    by simp
  show ?case
  proof (cases "fst (conn_Receive (conn ?s1))")
    case (Inl e)
    then show ?thesis
      using Suc.prems by (auto simp: Let_def split: prod.splits if_splits)
  next
    case (Inr ms)
    obtain x u1 where r: "range_ms f u ms = (x, u1)"
      by (cases "range_ms f u ms")
    show ?thesis
    proof (cases x)
      case Fallthrough
      then have "ReadUntil_loop n deadline f u1 ?s2 = Some (r, u', s')"
        using Suc.prems Inr r by (auto simp: Let_def split: prod.splits if_splits)
      from Suc.IH [OF this] s2 show ?thesis by simp
    next
      case (Returned e)
      then show ?thesis
        using Suc.prems Inr r by (auto simp: Let_def split: prod.splits if_splits)
    qed
  qed
qed

text \<open>
  C5: \<^verbatim>\<open>NewSession\<close> fails when the lookup of \<^verbatim>\<open>NET_DM\<close> fails and when the family
  has another number of groups than one.  When it succeeds, \<open>fam\<close> and \<open>group\<close> are the
  identifier of the family and the identifier of its one group, and no method of the
  session changes them.
\<close>

theorem NewSession_lookup:
  "NewSession (Inl e) = Inl (Wrapf ''session'' e)
   \<and> (families c ''NET_DM'' = Inl e \<longrightarrow>
        NewSession (Inr c) = Inl (Wrapf ''session'' (Wrapf ''lookup'' e)))
   \<and> (families c ''NET_DM'' = Inr f \<and> length (Groups f) \<noteq> 1 \<longrightarrow>
        NewSession (Inr c) = Inl (Wrapf ''session'' (Errorf ''lookup: martian NET_DM family'')))
   \<and> (families c ''NET_DM'' = Inr f \<and> Groups f = [g] \<longrightarrow>
        NewSession (Inr c) =
          Inr \<lparr>conn = c\<lparr>trace := trace c @ [EvGetFamily ''NET_DM'']\<rparr>,
               fam = family_ID f, group = group_ID g\<rparr>)
   \<and> fam (snd (req cmd data ack s)) = fam s \<and> group (snd (req cmd data ack s)) = group s
   \<and> fam (snd (dropMonitorLookup s)) = fam s \<and> group (snd (dropMonitorLookup s)) = group s
   \<and> fam (snd (setPacketMode s)) = fam s \<and> group (snd (setPacketMode s)) = group s
   \<and> fam (snd (Config s)) = fam s \<and> group (snd (Config s)) = group s
   \<and> fam (snd (Start sw hw s)) = fam s \<and> group (snd (Start sw hw s)) = group s
   \<and> fam (snd (Stop sw hw s)) = fam s \<and> group (snd (Stop sw hw s)) = group s
   \<and> (ReadUntil n deadline cb u s = Some (r, u', s') \<longrightarrow> fam s' = fam s \<and> group s' = group s)"
proof -
  have lookup: "fam (snd (dropMonitorLookup s)) = fam s \<and> group (snd (dropMonitorLookup s)) = group s"
    by (simp add: dropMonitorLookup_def conn_GetFamily_def split: sum.split)
  have spm: "fam (snd (setPacketMode s)) = fam s \<and> group (snd (setPacketMode s)) = group s"
    by (simp add: setPacketMode_eq split: option.split)
  have ru: "ReadUntil n deadline cb u s = Some (r, u', s') \<longrightarrow> fam s' = fam s \<and> group s' = group s"
    unfolding ReadUntil_def using ReadUntil_loop_frame [of n deadline cb u _ r u' s'] by auto
  have new: "(families c ''NET_DM'' = Inl e \<longrightarrow>
        NewSession (Inr c) = Inl (Wrapf ''session'' (Wrapf ''lookup'' e)))
   \<and> (families c ''NET_DM'' = Inr f \<and> length (Groups f) \<noteq> 1 \<longrightarrow>
        NewSession (Inr c) = Inl (Wrapf ''session'' (Errorf ''lookup: martian NET_DM family'')))
   \<and> (families c ''NET_DM'' = Inr f \<and> Groups f = [g] \<longrightarrow>
        NewSession (Inr c) =
          Inr \<lparr>conn = c\<lparr>trace := trace c @ [EvGetFamily ''NET_DM'']\<rparr>,
               fam = family_ID f, group = group_ID g\<rparr>)"
    by (simp add: NewSession_def dropMonitorLookup_def conn_GetFamily_def)
  show ?thesis
    using lookup spm ru new Start_frame [of sw hw s] Config_frame [of s]
    by (simp add: NewSession_def req_eq Stop_eq)
qed

theorem NewSession_lookup_witness:
  "NewSession (Inr (example_conn (\<lambda>name. Inr example_family))) =
     Inr \<lparr>conn = (example_conn (\<lambda>name. Inr example_family))\<lparr>trace := [EvGetFamily ''NET_DM'']\<rparr>,
          fam = 0x1f, group = 1\<rparr>
   \<and> NewSession (Inr (example_conn no_family)) =
       Inl (Wrapf ''session'' (Wrapf ''lookup'' (Errorf ''no such family'')))
   \<and> NewSession (Inr (example_conn (\<lambda>name. Inr (example_family\<lparr>Groups := []\<rparr>)))) =
       Inl (Wrapf ''session'' (Errorf ''lookup: martian NET_DM family''))
   \<and> map_option (\<lambda>(r, u, s'). (fam s', group s'))
        (ReadUntil 1 0 (\<lambda>u pa. (True, u)) ()
          (example_session (sconst None) (sconst (Inl (NetError ''i/o timeout'' True)))
             (sconst None) (sconst None)))
       = Some (0x1f, 1)"
proof -
  let ?s = "example_session (sconst None) (sconst (Inl (NetError ''i/o timeout'' True)))
             (sconst None) (sconst None)"
  let ?g = "\<lparr>group_ID = 1, group_Name = ''events''\<rparr>"
  obtain s' where ru: "ReadUntil 1 0 (\<lambda>u pa. (True, u)) () ?s = Some (None, (), s')"
    by (simp add: ReadUntil_def conn_Receive_def conn_SetReadBuffer_def example_session_def)
  have 1: "NewSession (Inr (example_conn (\<lambda>name. Inr example_family))) =
     Inr \<lparr>conn = (example_conn (\<lambda>name. Inr example_family))\<lparr>trace := [EvGetFamily ''NET_DM'']\<rparr>,
          fam = 0x1f, group = 1\<rparr>"
    using NewSession_lookup [of "Errorf []" "example_conn (\<lambda>name. Inr example_family)" "example_family" "?g" 0 "[]" False ?s False False 1 0
        "\<lambda>u pa. (True, u)" "()" None "()" s']
    by (simp add: example_conn_def example_family_def)
  have 2: "NewSession (Inr (example_conn no_family)) =
       Inl (Wrapf ''session'' (Wrapf ''lookup'' (Errorf ''no such family'')))"
    using NewSession_lookup [of "Errorf ''no such family''" "example_conn no_family" "example_family" "?g" 0 "[]" False ?s False False 1 0
        "\<lambda>u pa. (True, u)" "()" None "()" s']
    by (simp add: example_conn_def no_family_def)
  have 3: "NewSession (Inr (example_conn (\<lambda>name. Inr (example_family\<lparr>Groups := []\<rparr>)))) =
       Inl (Wrapf ''session'' (Errorf ''lookup: martian NET_DM family''))"
    using NewSession_lookup [of "Errorf []" "example_conn (\<lambda>name. Inr (example_family\<lparr>Groups := []\<rparr>))" "example_family\<lparr>Groups := []\<rparr>" "?g" 0 "[]" False ?s False False 1 0
        "\<lambda>u pa. (True, u)" "()" None "()" s']
    by (simp add: example_conn_def example_family_def)
  have "fam s' = fam ?s \<and> group s' = group ?s"
    using ru NewSession_lookup [of "Errorf []" "example_conn no_family" "example_family" "?g" 0 "[]" False ?s False False 1 0
        "\<lambda>u pa. (True, u)" "()" None "()" s']
    by simp
  then have 4: "map_option (\<lambda>(r, u, s'). (fam s', group s'))
        (ReadUntil 1 0 (\<lambda>u pa. (True, u)) () ?s) = Some (0x1f, 1)"
    using ru by (simp add: example_session_def)
  from 1 2 3 4 show ?thesis
    by (intro conjI)
qed

text \<open>
  C10: \<^verbatim>\<open>Config\<close> decodes \<^verbatim>\<open>ms[0]\<close> of what \<^verbatim>\<open>Receive\<close> returned without looking at
  the length of \<^verbatim>\<open>ms\<close>.  When the request was sent and \<^verbatim>\<open>Receive\<close> succeeds with
  at least one message, the index is in range and the first message is decoded; when it
  succeeds with no message, the index is out of range and \<^verbatim>\<open>Config\<close> panics.
\<close>

theorem Config_first_message:
  "(sends (conn s) = Some e ## ss \<longrightarrow>
      fst (Config s) = Ret (Inl (Wrapf ''config'' e))
      \<and> trace (conn (snd (Config s))) =
           trace (conn s) @ [EvSend (request CMD_CONFIG_GET []) (fam s) Request (Some e)])
   \<and> (sends (conn s) = None ## ss \<and> receives (conn s) = Inl e ## rs \<longrightarrow>
        fst (Config s) = Ret (Inl (Wrapf ''config'' e)))
   \<and> (sends (conn s) = None ## ss \<and> receives (conn s) = Inr [] ## rs \<longrightarrow>
        fst (Config s) = Panic ''index out of range [0] with length 0'')
   \<and> (sends (conn s) = None ## ss \<and> receives (conn s) = Inr (m # ms) ## rs \<longrightarrow>
        fst (Config s) =
          Ret (case decodeConfig (Data m) of
                 Inl e \<Rightarrow> Inl (Wrapf ''config'' e)
               | Inr conf \<Rightarrow> Inr conf))
   \<and> (sends (conn s) = None ## ss \<longrightarrow>
        trace (conn (snd (Config s))) =
          trace (conn s) @
            [EvSend (request CMD_CONFIG_GET []) (fam s) Request None,
             EvReceive (shd (receives (conn s)))])"
  by (auto simp: Config_def req_eq conn_Receive_def split: sum.split list.split)

theorem Config_first_message_witness:
  "fst (Config (example_session (None ## sconst None) (Inr [] ## sconst (Inr []))
          (sconst None) (sconst None)))
     = Panic ''index out of range [0] with length 0''
   \<and> fst (Config (example_session (None ## sconst None)
          (Inr [request CMD_CONFIG_NEW [5, 0, 1, 0, 1, 0, 0, 0]] ## sconst (Inr []))
          (sconst None) (sconst None)))
     = Ret (Inr [ATTR_ALERT_MODE \<mapsto> IUint8 1])
   \<and> fst (Config (example_session (None ## sconst None)
          (Inl (Errorf ''EBADF'') ## sconst (Inr [])) (sconst None) (sconst None)))
     = Ret (Inl (Wrapf ''config'' (Errorf ''EBADF'')))
   \<and> trace (conn (snd (Config (example_session (Some (Errorf ''EBADF'') ## sconst None)
          (Inr [] ## sconst (Inr [])) (sconst None) (sconst None)))))
     = [EvSend (request CMD_CONFIG_GET []) 0x1f Request (Some (Errorf ''EBADF''))]"
proof -
  have d: "decodeConfig [5, 0, 1, 0, 1, 0, 0, 0] = Inr [ATTR_ALERT_MODE \<mapsto> IUint8 1]"
    by (simp add: decodeConfig_def NewAttributeDecoder_def Next_def Err_def unmarshal_def
        advance_def nlaAlign_def nlaHeaderLen_def decodeConfig_case_def Type_def ATTR_defs
        Uint8_def uint_of_def available.simps decodeConfig_loop.simps)
  show ?thesis
    using d
      Config_first_message [where s = "example_session (None ## sconst None)
          (Inr [] ## sconst (Inr [])) (sconst None) (sconst None)"
          and ss = "sconst None" and rs = "sconst (Inr [])" and e = "Errorf ''EBADF''"
          and m = "request CMD_CONFIG_NEW [5, 0, 1, 0, 1, 0, 0, 0]" and ms = "[]"]
      Config_first_message [where s = "example_session (None ## sconst None)
          (Inr [request CMD_CONFIG_NEW [5, 0, 1, 0, 1, 0, 0, 0]] ## sconst (Inr []))
          (sconst None) (sconst None)"
          and ss = "sconst None" and rs = "sconst (Inr [])" and e = "Errorf ''EBADF''"
          and m = "request CMD_CONFIG_NEW [5, 0, 1, 0, 1, 0, 0, 0]" and ms = "[]"]
      Config_first_message [where s = "example_session (None ## sconst None)
          (Inl (Errorf ''EBADF'') ## sconst (Inr [])) (sconst None) (sconst None)"
          and ss = "sconst None" and rs = "sconst (Inr [])" and e = "Errorf ''EBADF''"
          and m = "request CMD_CONFIG_NEW [5, 0, 1, 0, 1, 0, 0, 0]" and ms = "[]"]
      Config_first_message [where s = "example_session (Some (Errorf ''EBADF'') ## sconst None)
          (Inr [] ## sconst (Inr [])) (sconst None) (sconst None)"
          and ss = "sconst None" and rs = "sconst (Inr [])" and e = "Errorf ''EBADF''"
          and m = "request CMD_CONFIG_NEW [5, 0, 1, 0, 1, 0, 0, 0]" and ms = "[]"]
    by (simp add: example_session_def request_def)
qed

section \<open>The read loop\<close>













section \<open>The monitoring state\<close>

lemma observed_append: "observed (tr @ evs) = foldl observe (observed tr) evs"
  by (simp add: observed_def)

lemma Command_request [simp]: "Command (Header (request cmd data)) = cmd"
  by (simp add: request_def)

lemma Start_from_Idle:
  assumes "sends (conn s) = o1 ## o2 ## o3 ## ss"
    and "receives (conn s) = r1 ## r2 ## rs"
    and "joins (conn s) = j ## js"
    and "leaves (conn s) = l ## ls"
    and "Idle s"
  shows "(fst (Start sw hw s) = None) =
           (o1 = None \<and> \<not> isl r1 \<and> o2 = None \<and> \<not> isl r2 \<and> j = None)"
    and "Monitoring (snd (Start sw hw s)) = (fst (Start sw hw s) = None)"
    and "o1 = None \<and> \<not> isl r1 \<and> o2 = None \<and> \<not> isl r2 \<and> j = Some e \<and> o3 = None \<Longrightarrow>
           fst (Start sw hw s) = Some (Wrapf ''join'' e) \<and> Idle (snd (Start sw hw s))"
    and "o1 = None \<and> \<not> isl r1 \<and> o2 = None \<and> \<not> isl r2 \<and> j = Some e \<and> o3 = Some e' \<Longrightarrow>
           observed (trace (conn (snd (Start sw hw s))))
             = \<lparr>awaiting_ack = False, alerting = True, joined = False\<rparr>"
  using assms
  by (auto simp: Start_def Encode_flags setPacketMode_eq req_eq Stop_eq conn_Receive_def
      conn_JoinGroup_def Idle_def Monitoring_def observed_append CMD_defs GRP_ALERT_def
      split: option.splits sum.splits)


lemma Start_join_fails:
  assumes "sends (conn s) = None ## None ## o3 ## ss"
    and "receives (conn s) = Inr m1 ## Inr m2 ## rs"
    and "joins (conn s) = Some e ## js"
    and "leaves (conn s) = l ## ls"
  shows "Start sw hw s =
           (Some (Wrapf ''join'' e),
            s\<lparr>conn := (conn s)\<lparr>sends := ss, receives := rs, joins := js, leaves := ls,
                trace := trace (conn s) @
                  [EvSend (request CMD_CONFIG packet_mode_payload) (fam s)
                     (Request OR Acknowledge) None,
                   EvReceive (Inr m1),
                   EvSend (request CMD_START (flags_payload sw hw)) (fam s)
                     (Request OR Acknowledge) None,
                   EvReceive (Inr m2),
                   EvJoinGroup GRP_ALERT (Some e),
                   EvLeaveGroup GRP_ALERT l,
                   EvSend (request CMD_STOP (flags_payload sw hw)) (fam s) Request o3]\<rparr>\<rparr>)"
  using assms
  by (simp add: Start_def Encode_flags setPacketMode_eq req_eq Stop_eq conn_Receive_def
      conn_JoinGroup_def)

text \<open>
  C4, as the code has it: the session stores no state.  Read off the history of its
  calls, a session that is Idle is Monitoring after \<^verbatim>\<open>Start\<close> exactly when \<^verbatim>\<open>Start\<close>
  returns \<^verbatim>\<open>nil\<close>, which it does exactly when the configuration, the acknowledged
  start and the join all succeeded.  When the join fails and the \<^verbatim>\<open>CMD_STOP\<close> of the
  rollback is sent, the session is Idle again, \<open>fam\<close> and \<open>group\<close> are unchanged, and a
  following \<^verbatim>\<open>Start\<close> whose calls succeed returns \<^verbatim>\<open>nil\<close> and ends Monitoring.
\<close>

theorem Start_monitoring_state:
  assumes "sends (conn s) = o1 ## o2 ## o3 ## o4 ## o5 ## o6 ## ss"
    and "receives (conn s) = r1 ## r2 ## r3 ## r4 ## rs"
    and "joins (conn s) = j1 ## j2 ## js"
    and "leaves (conn s) = l1 ## l2 ## ls"
    and "Idle s"
  shows
    "(fst (Start sw hw s) = None) =
        (o1 = None \<and> \<not> isl r1 \<and> o2 = None \<and> \<not> isl r2 \<and> j1 = None)
     \<and> Monitoring (snd (Start sw hw s)) = (fst (Start sw hw s) = None)
     \<and> (o1 = None \<and> \<not> isl r1 \<and> o2 = None \<and> \<not> isl r2 \<and> j1 = Some e \<and> o3 = None \<longrightarrow>
          fst (Start sw hw s) = Some (Wrapf ''join'' e)
          \<and> Idle (snd (Start sw hw s))
          \<and> fam (snd (Start sw hw s)) = fam s \<and> group (snd (Start sw hw s)) = group s
          \<and> (o4 = None \<and> \<not> isl r3 \<and> o5 = None \<and> \<not> isl r4 \<and> j2 = None \<longrightarrow>
                fst (Start sw hw (snd (Start sw hw s))) = None
                \<and> Monitoring (snd (Start sw hw (snd (Start sw hw s))))))"
proof (intro conjI impI)
  note first = Start_from_Idle [OF assms(1) assms(2) assms(3) assms(4) assms(5),
      where sw = sw and hw = hw]
  show "(fst (Start sw hw s) = None) =
        (o1 = None \<and> \<not> isl r1 \<and> o2 = None \<and> \<not> isl r2 \<and> j1 = None)"
    by (rule first(1))
  show "Monitoring (snd (Start sw hw s)) = (fst (Start sw hw s) = None)"
    by (rule first(2))
  assume a: "o1 = None \<and> \<not> isl r1 \<and> o2 = None \<and> \<not> isl r2 \<and> j1 = Some e \<and> o3 = None"
  from first(3) [of e, OF a]
  show "fst (Start sw hw s) = Some (Wrapf ''join'' e)" and idle: "Idle (snd (Start sw hw s))"
    by simp_all
  show "fam (snd (Start sw hw s)) = fam s" and "group (snd (Start sw hw s)) = group s"
    using Start_frame [of sw hw s] by simp_all
  assume b: "o4 = None \<and> \<not> isl r3 \<and> o5 = None \<and> \<not> isl r4 \<and> j2 = None"
  obtain m1 m2 where m: "r1 = Inr m1" "r2 = Inr m2"
    using a by (cases r1; cases r2) simp_all
  let ?s' = "snd (Start sw hw s)"
  have s': "sends (conn ?s') = o4 ## o5 ## o6 ## ss" "receives (conn ?s') = r3 ## r4 ## rs"
    "joins (conn ?s') = j2 ## js" "leaves (conn ?s') = l2 ## ls"
    using a m assms(1-4)
      Start_join_fails [of s None "o4 ## o5 ## o6 ## ss" m1 m2 "r3 ## r4 ## rs" e "j2 ## js"
        l1 "l2 ## ls" sw hw]
    by simp_all
  note second = Start_from_Idle [OF s'(1) s'(2) s'(3) s'(4) idle, where sw = sw and hw = hw]
  show "fst (Start sw hw ?s') = None"
    using second(1) b by simp
  then show "Monitoring (snd (Start sw hw ?s'))"
    using second(2) by simp
qed

text \<open>
  The claim C4 as stated fails where the rollback fails too: the join fails, the
  \<^verbatim>\<open>CMD_STOP\<close> of the rollback cannot be sent, \<^verbatim>\<open>Start\<close> drops that error and returns
  the join's; alerting was acknowledged and the group is not joined, which is neither
  Idle nor Monitoring.
\<close>

theorem Start_half_started_counterexample:
  "Idle rollback_fails
   \<and> fst (Start True False rollback_fails) = Some (Wrapf ''join'' (Errorf ''ENOENT''))
   \<and> trace (conn (snd (Start True False rollback_fails)))
       = [EvSend (request CMD_CONFIG packet_mode_payload) 0x1f (Request OR Acknowledge) None,
          EvReceive (Inr []),
          EvSend (request CMD_START [4, 0, 20, 0]) 0x1f (Request OR Acknowledge) None,
          EvReceive (Inr []),
          EvJoinGroup GRP_ALERT (Some (Errorf ''ENOENT'')),
          EvLeaveGroup GRP_ALERT None,
          EvSend (request CMD_STOP [4, 0, 20, 0]) 0x1f Request (Some (Errorf ''EPIPE''))]
   \<and> observed (trace (conn (snd (Start True False rollback_fails))))
       = \<lparr>awaiting_ack = False, alerting = True, joined = False\<rparr>
   \<and> \<not> Idle (snd (Start True False rollback_fails))
   \<and> \<not> Monitoring (snd (Start True False rollback_fails))"
  by (simp add: rollback_fails_def example_session_def Start_def Encode_flags setPacketMode_eq
      req_eq Stop_eq conn_Receive_def conn_JoinGroup_def Idle_def Monitoring_def observed_def
      CMD_defs GRP_ALERT_def flags_payload_def)

theorem Start_monitoring_state_witness:
  "Idle rollback_sent
   \<and> fst (Start True False rollback_sent) = Some (Wrapf ''join'' (Errorf ''ENOENT''))
   \<and> \<not> Monitoring (snd (Start True False rollback_sent))
   \<and> Idle (snd (Start True False rollback_sent))
   \<and> fst (Start True False (snd (Start True False rollback_sent))) = None
   \<and> Monitoring (snd (Start True False (snd (Start True False rollback_sent))))"
proof -
  have idle: "Idle rollback_sent"
    by (simp add: rollback_sent_def example_session_def Idle_def observed_def)
  show ?thesis
    using idle
      Start_monitoring_state [of rollback_sent None None None None None None "sconst None"
        "Inr []" "Inr []" "Inr []" "Inr []" "sconst (Inr [])" "Some (Errorf ''ENOENT'')" None
        "sconst None" "Some (Errorf ''EINVAL'')" None "sconst None" True False
        "Errorf ''ENOENT''"]
    by (simp add: rollback_sent_def example_session_def)
qed

section \<open>Malformed streams\<close>

lemma le_nat_bound: "le_nat bs < 256 ^ length bs"
proof (induction bs)
  case Nil
  show ?case by simp
next
  case (Cons x xs)
  have "unat x < 256"
    using unsigned_less [of x, where 'a = nat] by simp
  with Cons show ?case by simp
qed

lemma le_nat_take_2: "le_nat (take 2 bs) < 65536"
proof -
  have "le_nat (take 2 bs) < 256 ^ length (take 2 bs)"
    by (rule le_nat_bound)
  also have "(256::nat) ^ length (take 2 bs) \<le> 256 ^ 2"
    by (rule power_increasing) simp_all
  finally show ?thesis by simp
qed

lemma unat_of_nat_16: "l < 65536 \<Longrightarrow> unat (of_nat l :: 16 word) = l"
  by (simp add: unat_of_nat)

lemma Next_malformed_records:
  assumes "dec_err d = None" and "malformed_records (dec_rest d)"
  shows "case Next d of
           (False, d') \<Rightarrow> dec_err d' \<noteq> None
         | (True, d') \<Rightarrow> dec_err d' = None \<and> malformed_records (dec_rest d')"
proof -
  let ?bs = "dec_rest d"
  let ?l = "le_nat (take 2 ?bs)"
  have ne: "?bs \<noteq> []"
    using assms(2) by (subst (asm) malformed_records.simps) (simp split: if_splits)
  show ?thesis
  proof (cases "length ?bs < nlaHeaderLen \<or> ?l > length ?bs \<or> (0 < ?l \<and> ?l < nlaHeaderLen)")
    case True
    then have "\<exists>e. unmarshal ?bs = Inl e"
      by (auto simp: unmarshal_def Let_def)
    then show ?thesis
      using assms(1) ne by (auto simp: Next_def)
  next
    case False
    then have tr: "malformed_records (drop (advance ?l) ?bs)"
      using assms(2) ne by (subst (asm) malformed_records.simps) (simp split: if_splits)
    have l16: "unat (of_nat ?l :: 16 word) = ?l"
      using le_nat_take_2 by (rule unat_of_nat_16)
    from False have "\<exists>a. unmarshal ?bs = Inr a \<and> unat (attr_Length a) = ?l"
      using l16 by (auto simp: unmarshal_def Let_def)
    then show ?thesis
      using assms(1) ne tr by (auto simp: Next_def)
  qed
qed

lemma Next_err: "dec_err d \<noteq> None \<Longrightarrow> Next d = (False, d)"
  by (simp add: Next_def)

lemma uint_of_err [simp]: "dec_err d \<noteq> None \<Longrightarrow> dec_err (snd (uint_of w d)) \<noteq> None"
  by (simp add: uint_of_def)

lemma decodePort_loop_malformed:
  "malformed_records (dec_rest d) \<or> dec_err d \<noteq> None \<Longrightarrow>
     dec_err (fst (decodePort_loop d a)) \<noteq> None"
proof (induction d a rule: decodePort_loop.induct)
  case (1 d a)
  show ?case
  proof (cases "dec_err d = None")
    case False
    then show ?thesis
      by (subst decodePort_loop.simps) (simp add: Next_err)
  next
    case True
    with "1.prems" have tr: "malformed_records (dec_rest d)"
      by simp
    obtain more d' where n: "Next d = (more, d')"
      by (cases "Next d")
    show ?thesis
    proof (cases more)
      case False
      then show ?thesis
        using Next_malformed_records [OF True tr] n
        by (subst decodePort_loop.simps) simp
    next
      case more: True
      obtain d'' a' where c: "decodePort_case d' a = (d'', a')"
        by (cases "decodePort_case d' a")
      have "malformed_records (dec_rest d')"
        using Next_malformed_records [OF True tr] n more by simp
      moreover have "dec_rest d'' = dec_rest d'"
        using decodePort_case_rest [of d' a] c by simp
      ultimately have "malformed_records (dec_rest d'')"
        by simp
      then have "dec_err (fst (decodePort_loop d'' a')) \<noteq> None"
        using "1.IH" [of more d' d'' a'] n more c
        by simp
      then show ?thesis
        using n more c by (subst decodePort_loop.simps) simp
    qed
  qed
qed

lemma Nested_decodePort_malformed:
  assumes "malformed_records (attr_Data (dec_a d))"
  shows "dec_err (fst (Nested decodePort Map.empty d)) \<noteq> None"
proof (cases "dec_err d = None")
  case False
  then show ?thesis by (simp add: Nested_def)
next
  case True
  show ?thesis
  proof (cases "NewAttributeDecoder (attr_Data (dec_a d))")
    case (Inl e)
    then show ?thesis using True by (simp add: Nested_def)
  next
    case (Inr nad)
    then have "dec_rest nad = attr_Data (dec_a d)"
      by (auto simp: NewAttributeDecoder_def split: sum.splits)
    then have "dec_err (fst (decodePort_loop nad Map.empty)) \<noteq> None"
      using assms decodePort_loop_malformed [of nad Map.empty] by simp
    then show ?thesis
      using True Inr
      by (auto simp: Nested_def decodePort_def Err_def split: prod.splits option.splits)
  qed
qed

lemma decodeAlert_case_in_port:
  "Type d = ATTR_IN_PORT \<Longrightarrow>
     fst (decodeAlert_case d ret) = fst (Nested decodePort Map.empty d)"
  by (simp add: decodeAlert_case_def ATTR_defs case_prod_beta)

lemma Next_malformed:
  assumes "dec_err d = None" and "malformed (dec_rest d)"
  shows "case Next d of
           (False, d') \<Rightarrow> dec_err d' \<noteq> None
         | (True, d') \<Rightarrow>
             (Type d' = ATTR_IN_PORT \<and> malformed_records (attr_Data (dec_a d')))
             \<or> malformed (dec_rest d')"
proof -
  let ?bs = "dec_rest d"
  let ?l = "le_nat (take 2 ?bs)"
  let ?t = "of_nat (le_nat (take 2 (drop 2 ?bs))) :: 16 word"
  let ?data = "take (?l - nlaHeaderLen) (drop nlaHeaderLen ?bs)"
  have ne: "?bs \<noteq> []"
    using assms(2) by (subst (asm) malformed.simps) (simp split: if_splits)
  show ?thesis
  proof (cases "length ?bs < nlaHeaderLen \<or> ?l > length ?bs \<or> (0 < ?l \<and> ?l < nlaHeaderLen)")
    case True
    then have "\<exists>e. unmarshal ?bs = Inl e"
      by (auto simp: unmarshal_def Let_def)
    then show ?thesis
      using assms(1) ne by (auto simp: Next_def)
  next
    case False
    then have tr: "(?t AND 0x3FFF = ATTR_IN_PORT \<and> malformed_records ?data)
        \<or> malformed (drop (advance ?l) ?bs)"
      using assms(2) ne by (subst (asm) malformed.simps) (simp split: if_splits)
    have l16: "unat (of_nat ?l :: 16 word) = ?l"
      using le_nat_take_2 by (rule unat_of_nat_16)
    have zero: "?l = 0 \<Longrightarrow> \<not> malformed_records ?data"
      by (subst malformed_records.simps) simp
    from False have "\<exists>a. unmarshal ?bs = Inr a \<and> unat (attr_Length a) = ?l
        \<and> attr_Type a = ?t \<and> (?l \<noteq> 0 \<longrightarrow> attr_Data a = ?data)"
      using l16 by (auto simp: unmarshal_def Let_def)
    then show ?thesis
      using assms(1) ne tr zero by (auto simp: Next_def Type_def)
  qed
qed

lemma decodeAlert_loop_malformed:
  "malformed (dec_rest d) \<or> dec_err d \<noteq> None \<Longrightarrow>
     dec_err (fst (decodeAlert_loop d ret)) \<noteq> None"
proof (induction d ret rule: decodeAlert_loop.induct)
  case (1 dec ret)
  show ?case
  proof (cases "dec_err dec = None")
    case False
    then show ?thesis
      by (subst decodeAlert_loop.simps) (simp add: Next_err)
  next
    case True
    with "1.prems" have tr: "malformed (dec_rest dec)"
      by simp
    obtain more dec' where n: "Next dec = (more, dec')"
      by (cases "Next dec")
    show ?thesis
    proof (cases more)
      case False
      then show ?thesis
        using Next_malformed [OF True tr] n
        by (subst decodeAlert_loop.simps) simp
    next
      case more: True
      obtain dec'' ret' where c: "decodeAlert_case dec' ret = (dec'', ret')"
        by (cases "decodeAlert_case dec' ret")
      have rest: "dec_rest dec'' = dec_rest dec'"
        using decodeAlert_case_rest [of dec' ret] c by simp
      have "(Type dec' = ATTR_IN_PORT \<and> malformed_records (attr_Data (dec_a dec')))
          \<or> malformed (dec_rest dec')"
        using Next_malformed [OF True tr] n more by simp
      then have "malformed (dec_rest dec'') \<or> dec_err dec'' \<noteq> None"
      proof
        assume p: "Type dec' = ATTR_IN_PORT \<and> malformed_records (attr_Data (dec_a dec'))"
        then have "dec_err (fst (decodeAlert_case dec' ret)) \<noteq> None"
          using Nested_decodePort_malformed [of dec'] decodeAlert_case_in_port [of dec' ret]
          by simp
        then show ?thesis
          using c by simp
      next
        assume "malformed (dec_rest dec')"
        then show ?thesis
          using rest by simp
      qed
      then have "dec_err (fst (decodeAlert_loop dec'' ret')) \<noteq> None"
        using "1.IH" [of more dec' dec'' ret'] n more c
        by simp
      then show ?thesis
        using n more c by (subst decodeAlert_loop.simps) simp
    qed
  qed
qed

text \<open>
  On every malformed stream the \<^verbatim>\<open>decodeAlert\<close> that reads \<^verbatim>\<open>dec.Err()\<close> after its
  loop returns an error and no attribute set, whatever the records before the malformed
  one held; so does \<^verbatim>\<open>PacketAlertFromRaw\<close>.
\<close>

lemma decodeAlert_malformed:
  "malformed raw \<Longrightarrow>
     (\<exists>e. decodeAlert raw = Inl e) \<and> (\<exists>e. PacketAlertFromRaw raw = Inl e)"
proof -
  assume tr: "malformed raw"
  have "\<exists>e. decodeAlert raw = Inl e"
  proof (cases "NewAttributeDecoder raw")
    case (Inl e)
    then show ?thesis by (simp add: decodeAlert_def)
  next
    case (Inr dec)
    then have "dec_rest dec = raw"
      by (auto simp: NewAttributeDecoder_def split: sum.splits)
    then have "dec_err (fst (decodeAlert_loop dec Map.empty)) \<noteq> None"
      using tr decodeAlert_loop_malformed [of dec Map.empty] by simp
    then show ?thesis
      using Inr by (auto simp: decodeAlert_def Err_def split: prod.splits)
  qed
  then show ?thesis
    by (auto simp: PacketAlertFromRaw_def)
qed

text \<open>
  C6: the \<^verbatim>\<open>decodeAlert\<close> of \<^verbatim>\<open>netlink.go\<close> returns the attributes it read before
  a malformed record, and no error: on a stream whose second record declares 70 bytes
  where 8 are left, or declares 2 bytes, and on a port whose nested record declares 9
  bytes where 8 are left.  On the same streams the \<^verbatim>\<open>decodeAlert\<close> that reads
  \<^verbatim>\<open>dec.Err()\<close> after its loop, and \<^verbatim>\<open>PacketAlertFromRaw\<close> over it, return the error
  and no attribute set, as they do on every malformed stream.
\<close>

theorem decodeAlert_netlink_go_partial:
  "malformed [12, 0, 2, 0, 5, 0, 0, 0, 0, 0, 0, 0, 70, 0, 7, 0, 9, 9, 9, 0]
   \<and> decodeAlert_netlink_go [12, 0, 2, 0, 5, 0, 0, 0, 0, 0, 0, 0, 70, 0, 7, 0, 9, 9, 9, 0]
       = Inr [ATTR_PC \<mapsto> IUint64 5]
   \<and> decodeAlert [12, 0, 2, 0, 5, 0, 0, 0, 0, 0, 0, 0, 70, 0, 7, 0, 9, 9, 9, 0]
       = Inl errInvalidAttribute
   \<and> PacketAlertFromRaw [12, 0, 2, 0, 5, 0, 0, 0, 0, 0, 0, 0, 70, 0, 7, 0, 9, 9, 9, 0]
       = Inl (Wrapf ''decode'' errInvalidAttribute)
   \<and> malformed [12, 0, 2, 0, 5, 0, 0, 0, 0, 0, 0, 0, 2, 0, 7, 0]
   \<and> decodeAlert_netlink_go [12, 0, 2, 0, 5, 0, 0, 0, 0, 0, 0, 0, 2, 0, 7, 0]
       = Inr [ATTR_PC \<mapsto> IUint64 5]
   \<and> decodeAlert [12, 0, 2, 0, 5, 0, 0, 0, 0, 0, 0, 0, 2, 0, 7, 0]
       = Inl errInvalidAttribute
   \<and> malformed [12, 0, 2, 0, 5, 0, 0, 0, 0, 0, 0, 0, 12, 0, 4, 0, 9, 0, 0, 0, 7, 0, 0, 0]
   \<and> decodeAlert_netlink_go
        [12, 0, 2, 0, 5, 0, 0, 0, 0, 0, 0, 0, 12, 0, 4, 0, 9, 0, 0, 0, 7, 0, 0, 0]
       = Inr [ATTR_PC \<mapsto> IUint64 5, ATTR_IN_PORT \<mapsto> IMap Map.empty]
   \<and> decodeAlert [12, 0, 2, 0, 5, 0, 0, 0, 0, 0, 0, 0, 12, 0, 4, 0, 9, 0, 0, 0, 7, 0, 0, 0]
       = Inl errInvalidAttribute
   \<and> \<not> malformed [12, 0, 2, 0, 5, 0, 0, 0, 0, 0, 0, 0]
   \<and> decodeAlert_netlink_go [12, 0, 2, 0, 5, 0, 0, 0, 0, 0, 0, 0] = Inr [ATTR_PC \<mapsto> IUint64 5]
   \<and> decodeAlert [12, 0, 2, 0, 5, 0, 0, 0, 0, 0, 0, 0] = Inr [ATTR_PC \<mapsto> IUint64 5]"
proof -
  note ev = NewAttributeDecoder_def Next_def Err_def unmarshal_def
     advance_def nlaAlign_def nlaHeaderLen_def Type_def ATTR_defs
     Uint64_def uint_of_def Bytes_def Nested_def decodePort_def available.simps
     decodePort_loop.simps
  note new = decodeAlert_def decodeAlert_case_def decodeAlert_loop.simps
  note old = decodeAlert_netlink_go_def decodeAlert_netlink_go_case_def
     decodeAlert_netlink_go_loop.simps
  note mal = malformed.simps malformed_records.simps advance_def nlaAlign_def nlaHeaderLen_def
     ATTR_defs
  have m1: "malformed [12, 0, 2, 0, 5, 0, 0, 0, 0, 0, 0, 0, 70, 0, 7, 0, 9, 9, 9, 0]"
    by (simp add: mal)
  have o1: "decodeAlert_netlink_go [12, 0, 2, 0, 5, 0, 0, 0, 0, 0, 0, 0, 70, 0, 7, 0, 9, 9, 9, 0]
       = Inr [ATTR_PC \<mapsto> IUint64 5]"
    by (simp add: ev old)
  have n1: "decodeAlert [12, 0, 2, 0, 5, 0, 0, 0, 0, 0, 0, 0, 70, 0, 7, 0, 9, 9, 9, 0]
       = Inl errInvalidAttribute"
    by (simp add: ev new)
  have p1: "PacketAlertFromRaw [12, 0, 2, 0, 5, 0, 0, 0, 0, 0, 0, 0, 70, 0, 7, 0, 9, 9, 9, 0]
       = Inl (Wrapf ''decode'' errInvalidAttribute)"
    by (simp add: PacketAlertFromRaw_def n1)
  have m2: "malformed [12, 0, 2, 0, 5, 0, 0, 0, 0, 0, 0, 0, 2, 0, 7, 0]"
    by (simp add: mal)
  have o2: "decodeAlert_netlink_go [12, 0, 2, 0, 5, 0, 0, 0, 0, 0, 0, 0, 2, 0, 7, 0]
       = Inr [ATTR_PC \<mapsto> IUint64 5]"
    by (simp add: ev old)
  have n2: "decodeAlert [12, 0, 2, 0, 5, 0, 0, 0, 0, 0, 0, 0, 2, 0, 7, 0]
       = Inl errInvalidAttribute"
    by (simp add: ev new)
  have m3: "malformed [12, 0, 2, 0, 5, 0, 0, 0, 0, 0, 0, 0, 12, 0, 4, 0, 9, 0, 0, 0, 7, 0, 0, 0]"
    by (simp add: mal)
  have o3: "decodeAlert_netlink_go
        [12, 0, 2, 0, 5, 0, 0, 0, 0, 0, 0, 0, 12, 0, 4, 0, 9, 0, 0, 0, 7, 0, 0, 0]
       = Inr [ATTR_PC \<mapsto> IUint64 5, ATTR_IN_PORT \<mapsto> IMap Map.empty]"
    by (simp add: ev old)
  have n3: "decodeAlert [12, 0, 2, 0, 5, 0, 0, 0, 0, 0, 0, 0, 12, 0, 4, 0, 9, 0, 0, 0, 7, 0, 0, 0]
       = Inl errInvalidAttribute"
    by (simp add: ev new)
  have m4: "\<not> malformed [12, 0, 2, 0, 5, 0, 0, 0, 0, 0, 0, 0]"
    by (simp add: mal)
  have o4: "decodeAlert_netlink_go [12, 0, 2, 0, 5, 0, 0, 0, 0, 0, 0, 0]
       = Inr [ATTR_PC \<mapsto> IUint64 5]"
    by (simp add: ev old)
  have n4: "decodeAlert [12, 0, 2, 0, 5, 0, 0, 0, 0, 0, 0, 0] = Inr [ATTR_PC \<mapsto> IUint64 5]"
    by (simp add: ev new)
  from m1 o1 n1 p1 m2 o2 n2 m3 o3 n3 m4 o4 n4 show ?thesis
    by (intro conjI)
qed

section \<open>Decoding what the encoder wrote\<close>

lemma le_nat_le_bytes: "le_nat (le_bytes n v) = v mod 256 ^ n"
proof (induction n arbitrary: v)
  case 0
  show ?case by simp
next
  case (Suc n)
  have "unat (of_nat (v mod 256) :: byte) = v mod 256"
    by (simp add: unat_of_nat)
  then have "le_nat (le_bytes (Suc n) v) = v mod 256 + 256 * (v div 256 mod 256 ^ n)"
    using Suc [of "v div 256"] by simp
  also have "\<dots> = v mod (256 * 256 ^ n)"
    by (simp add: mod_mult2_eq)
  finally show ?case by simp
qed

lemma length_le_bytes [simp]: "length (le_bytes n v) = n"
  by (induction n arbitrary: v) simp_all

lemma nlaAlign_ge: "n \<le> nlaAlign n"
  by (simp add: nlaAlign_def)

lemma length_marshal: "length (marshal a) = nlaHeaderLen + nlaAlign (length (snd a))"
  using nlaAlign_ge [of "length (snd a)"] by (simp add: marshal_def nlaHeaderLen_def)

lemma nlaAlign_add_4: "nlaAlign (4 + n) = 4 + nlaAlign n"
  by (simp add: nlaAlign_def) presburger

lemma marshal_header:
  assumes "nlaHeaderLen + length (snd a) \<le> 65535"
  shows "le_nat (take 2 (marshal a @ rest)) = nlaHeaderLen + length (snd a)"
    and "le_nat (take 2 (drop 2 (marshal a @ rest))) = unat (fst a)"
    and "take (length (snd a)) (drop nlaHeaderLen (marshal a @ rest)) = snd a"
    and "drop (advance (nlaHeaderLen + length (snd a))) (marshal a @ rest) = rest"
proof -
  have u: "unat (fst a) < 65536"
    using unsigned_less [of "fst a", where 'a = nat] by simp
  show "le_nat (take 2 (marshal a @ rest)) = nlaHeaderLen + length (snd a)"
    using assms le_nat_le_bytes [of 2 "nlaHeaderLen + length (snd a)"]
    by (simp add: marshal_def)
  show "le_nat (take 2 (drop 2 (marshal a @ rest))) = unat (fst a)"
    using u le_nat_le_bytes [of 2 "unat (fst a)"]
    by (simp add: marshal_def)
  show "take (length (snd a)) (drop nlaHeaderLen (marshal a @ rest)) = snd a"
    by (simp add: marshal_def nlaHeaderLen_def)
  have "advance (nlaHeaderLen + length (snd a)) = length (marshal a)"
    by (simp add: advance_def length_marshal nlaHeaderLen_def nlaAlign_add_4)
  then show "drop (advance (nlaHeaderLen + length (snd a))) (marshal a @ rest) = rest"
    by simp
qed

lemma unmarshal_marshal:
  assumes "nlaHeaderLen + length (snd a) \<le> 65535"
  shows "unmarshal (marshal a @ rest) =
           Inr \<lparr>attr_Length = of_nat (nlaHeaderLen + length (snd a)), attr_Type = fst a,
                attr_Data = snd a\<rparr>"
proof -
  have "nlaHeaderLen + length (snd a) \<le> length (marshal a @ rest)"
    using nlaAlign_ge [of "length (snd a)"] by (simp add: length_marshal)
  then show ?thesis
    using marshal_header [OF assms, of rest]
    by (simp add: unmarshal_def Let_def nlaHeaderLen_def)
qed

lemma Next_marshal:
  assumes "nlaHeaderLen + length (snd a) \<le> 65535" and "dec_err d = None"
    and "dec_rest d = marshal a @ rest"
  shows "Next d =
           (True, d\<lparr>dec_a := \<lparr>attr_Length = of_nat (nlaHeaderLen + length (snd a)),
                             attr_Type = fst a, attr_Data = snd a\<rparr>,
                     dec_rest := rest\<rparr>)"
proof -
  have ne: "marshal a @ rest \<noteq> []"
    using length_marshal [of a] by (auto simp: nlaHeaderLen_def)
  have "nlaHeaderLen + length (snd a) < 65536"
    using assms(1) by simp
  then have "unat (of_nat (nlaHeaderLen + length (snd a)) :: 16 word)
               = nlaHeaderLen + length (snd a)"
    by (rule unat_of_nat_16)
  then have "drop (advance (unat (of_nat (nlaHeaderLen + length (snd a)) :: 16 word)))
               (marshal a @ rest) = rest"
    using marshal_header(4) [OF assms(1), of rest] by (simp only:)
  then show ?thesis
    using assms(2,3) ne unmarshal_marshal [OF assms(1), of rest]
    by (simp add: Next_def del: of_nat_add)
qed

lemma available_marshal:
  assumes "nlaHeaderLen + length (snd a) \<le> 65535"
  shows "available (marshal a @ rest) =
           (case available rest of Inl e \<Rightarrow> Inl e | Inr n \<Rightarrow> Inr (Suc n))"
proof -
  have ne: "marshal a @ rest \<noteq> []"
    using length_marshal [of a] by (auto simp: nlaHeaderLen_def)
  have nl: "\<not> length (marshal a @ rest) < nlaHeaderLen"
    by (simp add: length_marshal)
  have "available (marshal a @ rest) =
          (case available (drop (advance (le_nat (take 2 (marshal a @ rest)))) (marshal a @ rest))
           of Inl e \<Rightarrow> Inl e | Inr n \<Rightarrow> Inr (Suc n))"
    by (subst available.simps) (simp only: ne nl if_False)
  then show ?thesis
    by (simp only: marshal_header(1,4) [OF assms, of rest])
qed

lemma decode_pc_payload:
  assumes "nlaHeaderLen + length payload \<le> 65535"
  shows "decodeAlert (marshal (ATTR_PC, le_bytes 8 (unat pc)) @ marshal (ATTR_PAYLOAD, payload))
           = Inr [ATTR_PC \<mapsto> IUint64 pc, ATTR_PAYLOAD \<mapsto> IBytes payload]"
proof -
  let ?a1 = "(ATTR_PC :: 16 word, le_bytes 8 (unat pc))"
  let ?a2 = "(ATTR_PAYLOAD :: 16 word, payload)"
  let ?raw = "marshal ?a1 @ marshal ?a2"
  let ?d0 = "\<lparr>dec_rest = ?raw, dec_a = \<lparr>attr_Length = 0, attr_Type = 0, attr_Data = []\<rparr>,
              dec_err = None\<rparr>"
  have l1: "nlaHeaderLen + length (snd ?a1) \<le> 65535"
    by (simp add: nlaHeaderLen_def)
  have l2: "nlaHeaderLen + length (snd ?a2) \<le> 65535"
    using assms by simp
  have av: "available ?raw = Inr 2"
    using available_marshal [OF l1, of "marshal ?a2"] available_marshal [OF l2, of "[]"]
    by (simp add: available.simps [of "[]"])
  then have new: "NewAttributeDecoder ?raw = Inr ?d0"
    by (simp add: NewAttributeDecoder_def)
  have pc: "of_nat (le_nat (le_bytes 8 (unat pc))) = pc"
  proof -
    have "unat pc < 256 ^ 8"
      using unsigned_less [of pc, where 'a = nat] by simp
    then show ?thesis
      by (simp add: le_nat_le_bytes)
  qed
  let ?d1 = "?d0\<lparr>dec_a := \<lparr>attr_Length = of_nat (nlaHeaderLen + length (snd ?a1)),
                             attr_Type = fst ?a1, attr_Data = snd ?a1\<rparr>,
                  dec_rest := marshal ?a2\<rparr>"
  have n1: "Next ?d0 = (True, ?d1)"
    by (rule Next_marshal [OF l1]) simp_all
  have c1: "decodeAlert_case ?d1 Map.empty = (?d1, [ATTR_PC \<mapsto> IUint64 pc])"
    using pc by (simp add: decodeAlert_case_def Type_def ATTR_defs Uint64_def uint_of_def)
  let ?d2 = "?d1\<lparr>dec_a := \<lparr>attr_Length = of_nat (nlaHeaderLen + length (snd ?a2)),
                             attr_Type = fst ?a2, attr_Data = snd ?a2\<rparr>,
                  dec_rest := []\<rparr>"
  have n2: "Next ?d1 = (True, ?d2)"
    using Next_marshal [OF l2, of ?d1 "[]"] by simp
  have c2: "decodeAlert_case ?d2 [ATTR_PC \<mapsto> IUint64 pc]
              = (?d2, [ATTR_PC \<mapsto> IUint64 pc, ATTR_PAYLOAD \<mapsto> IBytes payload])"
    by (simp add: decodeAlert_case_def Type_def ATTR_defs Bytes_def)
  have n3: "Next ?d2 = (False, ?d2)"
    by (simp add: Next_def)
  have "decodeAlert_loop ?d0 Map.empty
          = (?d2, [ATTR_PC \<mapsto> IUint64 pc, ATTR_PAYLOAD \<mapsto> IBytes payload])"
    apply (subst decodeAlert_loop.simps)
    apply (simp only: n1 c1 prod.case bool.case)
    apply (subst decodeAlert_loop.simps)
    apply (simp only: n2 c2 prod.case bool.case)
    apply (subst decodeAlert_loop.simps)
    apply (simp only: n3 prod.case bool.case)
    done
  then show ?thesis
    using new by (simp add: decodeAlert_def Err_def)
qed

lemma Encode_pc_payload:
  "nlaHeaderLen + length payload \<le> 65535 \<Longrightarrow>
     Encode (enc_Bytes ATTR_PAYLOAD payload (enc_Uint64 ATTR_PC pc NewAttributeEncoder))
       = Inr (marshal (ATTR_PC, le_bytes 8 (unat pc)) @ marshal (ATTR_PAYLOAD, payload))"
  by (simp add: Encode_def enc_Bytes_def enc_Uint64_def NewAttributeEncoder_def nlaHeaderLen_def)

section \<open>The drop event model: accessors\<close>

lemma drop_as_nths: "drop n xs = map ((!) xs) [n..<length xs]"
proof -
  have "drop n xs = drop n (map ((!) xs) [0..<length xs])"
    by (simp add: map_nth)
  also have "\<dots> = map ((!) xs) [n..<length xs]"
    by (simp add: drop_map)
  finally show ?thesis .
qed

text \<open>
  Every value \<^verbatim>\<open>decodeAlert\<close> stores has the type its accessor asserts, so on an alert
  that \<^verbatim>\<open>PacketAlertFromRaw\<close> returned no accessor panics.
\<close>

lemma decodePort_case_typed:
  "port_typed a \<Longrightarrow> port_typed (snd (decodePort_case d a))"
  by (simp add: decodePort_case_def port_typed_def absent_or_def ATTR_defs case_prod_beta)

lemma decodePort_loop_typed:
  "port_typed a \<Longrightarrow> port_typed (snd (decodePort_loop d a))"
proof (induction d a rule: decodePort_loop.induct)
  case (1 d a)
  obtain more d' where n: "Next d = (more, d')"
    by (cases "Next d")
  show ?case
  proof (cases more)
    case False
    then show ?thesis
      using n "1.prems" by (subst decodePort_loop.simps) simp
  next
    case True
    obtain d'' a' where c: "decodePort_case d' a = (d'', a')"
      by (cases "decodePort_case d' a")
    have "port_typed a'"
      using decodePort_case_typed [OF "1.prems", of d'] c by simp
    then have "port_typed (snd (decodePort_loop d'' a'))"
      using "1.IH" [of more d' d'' a'] n True c by simp
    then show ?thesis
      using n True c by (subst decodePort_loop.simps) simp
  qed
qed

lemma Nested_decodePort_typed: "port_typed (snd (Nested decodePort Map.empty d))"
proof -
  have e: "port_typed Map.empty"
    by (simp add: port_typed_def absent_or_def)
  have "port_typed b" if "decodePort nad Map.empty = (x, d', b)" for nad x d' b
    using decodePort_loop_typed [OF e, of nad] that
    by (simp add: decodePort_def case_prod_beta)
  then show ?thesis
    using e by (auto simp: Nested_def split: sum.splits option.splits prod.splits)
qed

lemma decodeAlert_case_typed:
  "alert_typed ret \<Longrightarrow> alert_typed (snd (decodeAlert_case d ret))"
  using Nested_decodePort_typed [of d]
  by (simp add: decodeAlert_case_def alert_typed_def absent_or_def ATTR_defs case_prod_beta)

lemma decodeAlert_loop_typed:
  "alert_typed ret \<Longrightarrow> alert_typed (snd (decodeAlert_loop d ret))"
proof (induction d ret rule: decodeAlert_loop.induct)
  case (1 dec ret)
  obtain more dec' where n: "Next dec = (more, dec')"
    by (cases "Next dec")
  show ?case
  proof (cases more)
    case False
    then show ?thesis
      using n "1.prems" by (subst decodeAlert_loop.simps) simp
  next
    case True
    obtain dec'' ret' where c: "decodeAlert_case dec' ret = (dec'', ret')"
      by (cases "decodeAlert_case dec' ret")
    have "alert_typed ret'"
      using decodeAlert_case_typed [OF "1.prems", of dec'] c by simp
    then have "alert_typed (snd (decodeAlert_loop dec'' ret'))"
      using "1.IH" [of more dec' dec'' ret'] n True c by simp
    then show ?thesis
      using n True c by (subst decodeAlert_loop.simps) simp
  qed
qed

lemma PacketAlertFromRaw_typed:
  "PacketAlertFromRaw raw = Inr pa \<Longrightarrow> alert_typed (attrs pa)"
proof -
  assume a: "PacketAlertFromRaw raw = Inr pa"
  have e: "alert_typed Map.empty"
    by (simp add: alert_typed_def absent_or_def)
  have "alert_typed ret" if "decodeAlert_loop dec Map.empty = (dec', ret)" for dec dec' ret
    using decodeAlert_loop_typed [OF e, of dec] that by simp
  then show ?thesis
    using a
    by (auto simp: PacketAlertFromRaw_def decodeAlert_def
        split: sum.splits prod.splits option.splits)
qed

lemma alert_typed_no_panic:
  assumes "alert_typed (attrs pa)"
  shows "\<exists>x. Packet pa = Ret x" and "\<exists>x. Symbol pa = Ret x" and "\<exists>x. PC pa = Ret x"
    and "\<exists>x. Proto pa = Ret x" and "\<exists>x. Length pa = Ret x" and "\<exists>x. Link pa = Ret x"
proof -
  show "\<exists>x. Packet pa = Ret x"
    using assms by (cases "attrs pa ATTR_PAYLOAD"; cases "the (attrs pa ATTR_PAYLOAD)")
      (auto simp: alert_typed_def absent_or_def Packet_def)
  show "\<exists>x. Symbol pa = Ret x"
    using assms by (cases "attrs pa ATTR_SYMBOL"; cases "the (attrs pa ATTR_SYMBOL)")
      (auto simp: alert_typed_def absent_or_def Symbol_def)
  show "\<exists>x. PC pa = Ret x"
    using assms by (cases "attrs pa ATTR_PC"; cases "the (attrs pa ATTR_PC)")
      (auto simp: alert_typed_def absent_or_def PC_def)
  show "\<exists>x. Proto pa = Ret x"
    using assms by (cases "attrs pa ATTR_PROTO"; cases "the (attrs pa ATTR_PROTO)")
      (auto simp: alert_typed_def absent_or_def Proto_def)
  show "\<exists>x. Length pa = Ret x"
    using assms by (cases "attrs pa ATTR_ORIG_LEN"; cases "the (attrs pa ATTR_ORIG_LEN)")
      (auto simp: alert_typed_def absent_or_def Length_def)
  show "\<exists>x. Link pa = Ret x"
  proof (cases "attrs pa ATTR_IN_PORT")
    case None
    then show ?thesis by (simp add: Link_def)
  next
    case (Some v)
    then obtain a where v: "v = IMap a" and p: "port_typed a"
      using assms by (cases v) (auto simp: alert_typed_def absent_or_def)
    show ?thesis
      using Some v p
      by (cases "a 0"; cases "the (a 0)")
        (auto simp: Link_def port_typed_def absent_or_def ATTR_defs)
  qed
qed

text \<open>
  C8: \<^verbatim>\<open>L3Packet()\<close> is the raw payload \<^verbatim>\<open>Packet()\<close> returns without its first 14
  bytes when the payload is longer than 14 bytes, and empty when the payload has at most
  14 bytes.  A payload of 10 bytes gives the empty sequence; one of 20 bytes gives its
  bytes at the offsets 14 to 19.  On every alert \<^verbatim>\<open>PacketAlertFromRaw\<close> returned,
  \<^verbatim>\<open>Packet()\<close> returns a payload.
\<close>

theorem L3Packet_strips_link_header:
  "(Packet pa = Ret payload \<longrightarrow>
      L3Packet pa = Ret (if 14 < length payload then drop 14 payload else []))
   \<and> (Packet pa = Ret payload \<and> length payload = 10 \<longrightarrow> L3Packet pa = Ret [])
   \<and> (Packet pa = Ret payload \<and> length payload = 20 \<longrightarrow>
        L3Packet pa = Ret [payload ! 14, payload ! 15, payload ! 16, payload ! 17,
                           payload ! 18, payload ! 19])
   \<and> (PacketAlertFromRaw raw = Inr pa \<longrightarrow>
        (\<exists>bytes. Packet pa = Ret bytes
           \<and> L3Packet pa = Ret (if 14 < length bytes then drop 14 bytes else [])))"
proof (intro conjI impI)
  assume "Packet pa = Ret payload"
  then show "L3Packet pa = Ret (if 14 < length payload then drop 14 payload else [])"
    by (simp add: L3Packet_def)
next
  assume "Packet pa = Ret payload \<and> length payload = 10"
  then show "L3Packet pa = Ret []"
    by (simp add: L3Packet_def)
next
  assume a: "Packet pa = Ret payload \<and> length payload = 20"
  have "drop 14 payload = map ((!) payload) [14..<20]"
    using a drop_as_nths [of 14 payload] by simp
  also have "[14..<20] = [14, 15, 16, 17, 18, 19 :: nat]"
    by (simp add: upt_rec)
  finally show "L3Packet pa = Ret [payload ! 14, payload ! 15, payload ! 16, payload ! 17,
                           payload ! 18, payload ! 19]"
    using a by (simp add: L3Packet_def)
next
  assume "PacketAlertFromRaw raw = Inr pa"
  then obtain bytes where "Packet pa = Ret bytes"
    using alert_typed_no_panic(1) [OF PacketAlertFromRaw_typed] by blast
  then show "\<exists>bytes. Packet pa = Ret bytes
      \<and> L3Packet pa = Ret (if 14 < length bytes then drop 14 bytes else [])"
    by (simp add: L3Packet_def)
qed

theorem L3Packet_strips_link_header_witness:
  "Packet \<lparr>attrs = [ATTR_PAYLOAD \<mapsto> IBytes [0,1,2,3,4,5,6,7,8,9,10,11,12,13,14,15,16,17,18,19]]\<rparr>
     = Ret [0,1,2,3,4,5,6,7,8,9,10,11,12,13,14,15,16,17,18,19]
   \<and> L3Packet \<lparr>attrs = [ATTR_PAYLOAD \<mapsto> IBytes [0,1,2,3,4,5,6,7,8,9,10,11,12,13,14,15,16,17,18,19]]\<rparr>
     = Ret [14,15,16,17,18,19]
   \<and> Packet \<lparr>attrs = [ATTR_PAYLOAD \<mapsto> IBytes [0,1,2,3,4,5,6,7,8,9]]\<rparr> = Ret [0,1,2,3,4,5,6,7,8,9]
   \<and> L3Packet \<lparr>attrs = [ATTR_PAYLOAD \<mapsto> IBytes [0,1,2,3,4,5,6,7,8,9]]\<rparr> = Ret []"
proof -
  let ?p20 = "[0,1,2,3,4,5,6,7,8,9,10,11,12,13,14,15,16,17,18,19] :: byte list"
  let ?p10 = "[0,1,2,3,4,5,6,7,8,9] :: byte list"
  have p20: "Packet \<lparr>attrs = [ATTR_PAYLOAD \<mapsto> IBytes ?p20]\<rparr> = Ret ?p20"
    by (simp add: Packet_def)
  have p10: "Packet \<lparr>attrs = [ATTR_PAYLOAD \<mapsto> IBytes ?p10]\<rparr> = Ret ?p10"
    by (simp add: Packet_def)
  show ?thesis
    using p20 p10
      L3Packet_strips_link_header [of "\<lparr>attrs = [ATTR_PAYLOAD \<mapsto> IBytes ?p20]\<rparr>" ?p20]
      L3Packet_strips_link_header [of "\<lparr>attrs = [ATTR_PAYLOAD \<mapsto> IBytes ?p10]\<rparr>" ?p10]
    by simp
qed

text \<open>
  C9: \<^verbatim>\<open>Is4()\<close> is true exactly when the decoded protocol attribute is \<open>0x0800\<close>, and
  \<^verbatim>\<open>Is16()\<close>, the code's name for the IPv6 test, exactly when it is \<open>0x86DD\<close>.  Without
  the attribute the protocol reads 0 and both are false.  On every alert
  \<^verbatim>\<open>PacketAlertFromRaw\<close> returned, \<^verbatim>\<open>Proto()\<close> returns a protocol and the two tests
  compare it with these values.
\<close>

theorem Is4_Is16_classify:
  "(attrs pa ATTR_PROTO = Some (IUint16 p) \<longrightarrow>
      Proto pa = Ret p \<and> Is4 pa = Ret (p = 0x0800) \<and> Is16 pa = Ret (p = 0x86DD))
   \<and> (attrs pa ATTR_PROTO = None \<longrightarrow>
      Proto pa = Ret 0 \<and> Is4 pa = Ret False \<and> Is16 pa = Ret False)
   \<and> (PacketAlertFromRaw raw = Inr pa \<longrightarrow>
      (\<exists>proto. Proto pa = Ret proto
         \<and> Is4 pa = Ret (proto = 0x0800) \<and> Is16 pa = Ret (proto = 0x86DD)))"
proof -
  have "\<exists>proto. Proto pa = Ret proto
      \<and> Is4 pa = Ret (proto = 0x0800) \<and> Is16 pa = Ret (proto = 0x86DD)"
    if decoded: "PacketAlertFromRaw raw = Inr pa"
  proof -
    obtain proto where "Proto pa = Ret proto"
      using alert_typed_no_panic(4) [OF PacketAlertFromRaw_typed [OF decoded]] by blast
    then show ?thesis
      by (simp add: Is4_def Is16_def)
  qed
  then show ?thesis
    by (simp add: Is4_def Is16_def Proto_def)
qed

theorem Is4_Is16_classify_witness:
  "Is4 \<lparr>attrs = [ATTR_PROTO \<mapsto> IUint16 0x0800]\<rparr> = Ret True
   \<and> Is16 \<lparr>attrs = [ATTR_PROTO \<mapsto> IUint16 0x0800]\<rparr> = Ret False
   \<and> Is4 \<lparr>attrs = [ATTR_PROTO \<mapsto> IUint16 0x86DD]\<rparr> = Ret False
   \<and> Is16 \<lparr>attrs = [ATTR_PROTO \<mapsto> IUint16 0x86DD]\<rparr> = Ret True
   \<and> Is4 \<lparr>attrs = Map.empty\<rparr> = Ret False
   \<and> Is16 \<lparr>attrs = Map.empty\<rparr> = Ret False"
  using Is4_Is16_classify [of "\<lparr>attrs = [ATTR_PROTO \<mapsto> IUint16 0x0800]\<rparr>" "0x0800"]
    Is4_Is16_classify [of "\<lparr>attrs = [ATTR_PROTO \<mapsto> IUint16 0x86DD]\<rparr>" "0x86DD"]
    Is4_Is16_classify [of "\<lparr>attrs = Map.empty\<rparr>" 0]
  by simp

text \<open>
  C7: an accessor of a \<^verbatim>\<open>PacketAlert\<close> whose attribute set lacks the attribute returns
  the zero value and no error: \<^verbatim>\<open>Symbol()\<close> the empty string, \<^verbatim>\<open>PC()\<close>,
  \<^verbatim>\<open>Proto()\<close>, \<^verbatim>\<open>Length()\<close> and \<^verbatim>\<open>Link()\<close> 0, \<^verbatim>\<open>Packet()\<close> the empty byte
  sequence.  The alert decoded from a message that holds a program counter and a payload
  and nothing else has the empty symbol, the length 0 and exactly the payload.  On every
  alert \<^verbatim>\<open>PacketAlertFromRaw\<close> returned, every accessor returns a value.
\<close>

theorem accessors_zero_when_absent:
  "(attrs pa ATTR_SYMBOL = None \<longrightarrow> Symbol pa = Ret [])
   \<and> (attrs pa ATTR_PC = None \<longrightarrow> PC pa = Ret 0)
   \<and> (attrs pa ATTR_PROTO = None \<longrightarrow> Proto pa = Ret 0)
   \<and> (attrs pa ATTR_ORIG_LEN = None \<longrightarrow> Length pa = Ret 0)
   \<and> (attrs pa ATTR_IN_PORT = None \<longrightarrow> Link pa = Ret 0)
   \<and> (attrs pa ATTR_IN_PORT = Some (IMap a) \<and> a 0 = None \<longrightarrow> Link pa = Ret 0)
   \<and> (attrs pa ATTR_PAYLOAD = None \<longrightarrow> Packet pa = Ret [])
   \<and> (nlaHeaderLen + length payload \<le> 65535 \<longrightarrow>
        (\<exists>raw alert.
           Encode (enc_Bytes ATTR_PAYLOAD payload (enc_Uint64 ATTR_PC pc NewAttributeEncoder))
             = Inr raw
           \<and> PacketAlertFromRaw raw = Inr alert
           \<and> attrs alert = [ATTR_PC \<mapsto> IUint64 pc, ATTR_PAYLOAD \<mapsto> IBytes payload]
           \<and> Symbol alert = Ret [] \<and> Length alert = Ret 0 \<and> Packet alert = Ret payload
           \<and> PC alert = Ret pc))
   \<and> (PacketAlertFromRaw raw = Inr pa \<longrightarrow>
        (\<exists>symb counter proto len link bytes.
           Symbol pa = Ret symb \<and> PC pa = Ret counter \<and> Proto pa = Ret proto
           \<and> Length pa = Ret len \<and> Link pa = Ret link \<and> Packet pa = Ret bytes))"
proof -
  have absent:
    "(attrs pa ATTR_SYMBOL = None \<longrightarrow> Symbol pa = Ret [])
     \<and> (attrs pa ATTR_PC = None \<longrightarrow> PC pa = Ret 0)
     \<and> (attrs pa ATTR_PROTO = None \<longrightarrow> Proto pa = Ret 0)
     \<and> (attrs pa ATTR_ORIG_LEN = None \<longrightarrow> Length pa = Ret 0)
     \<and> (attrs pa ATTR_IN_PORT = None \<longrightarrow> Link pa = Ret 0)
     \<and> (attrs pa ATTR_IN_PORT = Some (IMap a) \<and> a 0 = None \<longrightarrow> Link pa = Ret 0)
     \<and> (attrs pa ATTR_PAYLOAD = None \<longrightarrow> Packet pa = Ret [])"
    by (simp add: Symbol_def PC_def Proto_def Length_def Link_def Packet_def)
  have decoded: "\<exists>raw alert.
           Encode (enc_Bytes ATTR_PAYLOAD payload (enc_Uint64 ATTR_PC pc NewAttributeEncoder))
             = Inr raw
           \<and> PacketAlertFromRaw raw = Inr alert
           \<and> attrs alert = [ATTR_PC \<mapsto> IUint64 pc, ATTR_PAYLOAD \<mapsto> IBytes payload]
           \<and> Symbol alert = Ret [] \<and> Length alert = Ret 0 \<and> Packet alert = Ret payload
           \<and> PC alert = Ret pc"
    if len: "nlaHeaderLen + length payload \<le> 65535"
  proof -
    let ?raw = "marshal (ATTR_PC, le_bytes 8 (unat pc)) @ marshal (ATTR_PAYLOAD, payload)"
    let ?alert = "\<lparr>attrs = [ATTR_PC \<mapsto> IUint64 pc, ATTR_PAYLOAD \<mapsto> IBytes payload]\<rparr>"
    have "PacketAlertFromRaw ?raw = Inr ?alert"
      using decode_pc_payload [OF len, of pc] by (simp add: PacketAlertFromRaw_def)
    moreover have "Symbol ?alert = Ret [] \<and> Length ?alert = Ret 0
        \<and> Packet ?alert = Ret payload \<and> PC ?alert = Ret pc"
      by (simp add: Symbol_def Length_def Packet_def PC_def ATTR_defs)
    ultimately show ?thesis
      using Encode_pc_payload [OF len, of pc] by auto
  qed
  have total: "\<exists>symb counter proto len link bytes.
           Symbol pa = Ret symb \<and> PC pa = Ret counter \<and> Proto pa = Ret proto
           \<and> Length pa = Ret len \<and> Link pa = Ret link \<and> Packet pa = Ret bytes"
    if "PacketAlertFromRaw raw = Inr pa"
    using alert_typed_no_panic [OF PacketAlertFromRaw_typed [OF that]] by blast
  from absent decoded total show ?thesis
    by blast
qed

theorem accessors_zero_when_absent_witness:
  "Symbol \<lparr>attrs = Map.empty\<rparr> = Ret [] \<and> PC \<lparr>attrs = Map.empty\<rparr> = Ret 0
   \<and> Proto \<lparr>attrs = Map.empty\<rparr> = Ret 0 \<and> Length \<lparr>attrs = Map.empty\<rparr> = Ret 0
   \<and> Link \<lparr>attrs = Map.empty\<rparr> = Ret 0 \<and> Packet \<lparr>attrs = Map.empty\<rparr> = Ret []
   \<and> Link \<lparr>attrs = [ATTR_IN_PORT \<mapsto> IMap Map.empty]\<rparr> = Ret 0
   \<and> Encode (enc_Bytes ATTR_PAYLOAD [9, 9, 9]
               (enc_Uint64 ATTR_PC 0x0807060504030201 NewAttributeEncoder))
       = Inr [12, 0, 2, 0, 1, 2, 3, 4, 5, 6, 7, 8, 7, 0, 7, 0, 9, 9, 9, 0]
   \<and> (\<exists>alert. PacketAlertFromRaw [12, 0, 2, 0, 1, 2, 3, 4, 5, 6, 7, 8, 7, 0, 7, 0, 9, 9, 9, 0]
                 = Inr alert
        \<and> Symbol alert = Ret [] \<and> Length alert = Ret 0 \<and> Packet alert = Ret [9, 9, 9]
        \<and> PC alert = Ret 0x0807060504030201)"
proof -
  have enc: "Encode (enc_Bytes ATTR_PAYLOAD [9, 9, 9]
               (enc_Uint64 ATTR_PC 0x0807060504030201 NewAttributeEncoder))
       = Inr [12, 0, 2, 0, 1, 2, 3, 4, 5, 6, 7, 8, 7, 0, 7, 0, 9, 9, 9, 0]"
    by (simp add: Encode_def enc_Bytes_def enc_Uint64_def NewAttributeEncoder_def marshal_def
        nlaHeaderLen_def nlaAlign_def ATTR_defs le_bytes_2 le_bytes_8 le_bytes_4)
  show ?thesis
    using enc
      accessors_zero_when_absent [of "\<lparr>attrs = Map.empty\<rparr>" Map.empty "[9, 9, 9]"
        "0x0807060504030201"]
      accessors_zero_when_absent [of "\<lparr>attrs = [ATTR_IN_PORT \<mapsto> IMap Map.empty]\<rparr>" Map.empty
        "[9, 9, 9]" "0x0807060504030201"]
    by (auto simp: nlaHeaderLen_def)
qed


end
